theory Spec2Isabelle
  imports Complex_Main "HOL-Library.Word"
begin

section \<open>Images and the OpenCV interface\<close>

text \<open>
  A colour frame is a numpy array of shape (height, width, 3) of unsigned bytes, in
  OpenCV's B, G, R channel order; a single-channel image has shape (height, width).
  Both are lists of rows. A frame has at least one row and one column, as every array
  has that \<open>camera.read()\<close> returns with success. A contour is a list of integer
  points (x, y).
\<close>

type_synonym pixel = "8 word \<times> 8 word \<times> 8 word"
type_synonym frame = "pixel list list"
type_synonym gray = "8 word list list"
type_synonym contour = "(int \<times> int) list"
type_synonym colour = "nat \<times> nat \<times> nat"

datatype py_error = CvError | ValueError

text \<open>
  The program calls OpenCV, which is not part of the repository. The pixel-wise
  operations (\<open>absdiff\<close>, \<open>threshold\<close>, \<open>dilate\<close>, \<open>contourArea\<close>) are written out below
  as OpenCV documents them. The operations whose result depends on the library's
  version or on a long algorithm are taken as parameters, as the fields of \<open>cv2\<close>:
  the colour conversion, the border following of \<open>findContours\<close> (called with
  \<open>RETR_EXTERNAL\<close> and \<open>CHAIN_APPROX_SIMPLE\<close>), the two drawing routines (each field
  gives the array as it is after the in-place drawing) and the JPEG encoder.
\<close>

record cv2 =
  cvtColor_BGR2GRAY :: "frame \<Rightarrow> gray"
  findContours :: "gray \<Rightarrow> contour list"
  drawContours :: "frame \<Rightarrow> contour list \<Rightarrow> int \<Rightarrow> colour \<Rightarrow> nat \<Rightarrow> frame"
  putText :: "frame \<Rightarrow> string \<Rightarrow> int \<times> int \<Rightarrow> nat \<Rightarrow> real \<Rightarrow> colour \<Rightarrow> nat \<Rightarrow> frame"
  imencode_jpg :: "frame \<Rightarrow> bool \<times> string"

definition FONT_HERSHEY_SIMPLEX :: nat where
  "FONT_HERSHEY_SIMPLEX = 0"

text \<open>\<open>cv2.absdiff\<close>: per-pixel absolute difference; it raises when the shapes differ.\<close>

definition absdiff :: "gray \<Rightarrow> gray \<Rightarrow> py_error + gray" where
  "absdiff g1 g2 =
     (if map length g1 = map length g2
      then Inr (map2 (map2 (\<lambda>a b. if a \<le> b then b - a else a - b)) g1 g2)
      else Inl CvError)"

text \<open>\<open>cv2.threshold(src, thresh, maxval, THRESH_BINARY)[1]\<close>.\<close>

definition threshold :: "gray \<Rightarrow> 8 word \<Rightarrow> 8 word \<Rightarrow> gray" where
  "threshold src thresh maxval = map (map (\<lambda>x. if thresh < x then maxval else 0)) src"

text \<open>
  \<open>cv2.dilate(src, None, iterations=n)\<close>: the kernel \<open>None\<close> is the 3 x 3 rectangle, so
  one iteration replaces each pixel by the maximum over its neighbours that lie inside
  the image (the default border does not contribute). The subtraction \<open>i - 1\<close> is on
  \<open>nat\<close> and stops at row or column 0, which is the first neighbour inside the image.
\<close>

definition neighbours :: "gray \<Rightarrow> nat \<Rightarrow> nat \<Rightarrow> 8 word list" where
  "neighbours g i j =
     concat (map (\<lambda>i'. map (\<lambda>j'. g ! i' ! j') [j - 1 ..< min (j + 2) (length (g ! i'))])
                 [i - 1 ..< min (i + 2) (length g)])"

definition dilate1 :: "gray \<Rightarrow> gray" where
  "dilate1 g =
     map (\<lambda>i. map (\<lambda>j. fold max (neighbours g i j) 0) [0 ..< length (g ! i)])
         [0 ..< length g]"

definition dilate :: "gray \<Rightarrow> nat \<Rightarrow> gray" where
  "dilate src iterations = (dilate1 ^^ iterations) src"

text \<open>
  \<open>cv2.contourArea\<close>: the area enclosed by the polygon through the contour's points,
  by Green's formula, as an absolute value.
\<close>

fun cross_sum :: "(int \<times> int) \<Rightarrow> contour \<Rightarrow> int" where
  "cross_sum first [] = 0"
| "cross_sum first [(x, y)] = x * snd first - fst first * y"
| "cross_sum first ((x, y) # (x', y') # ps) = (x * y' - x' * y) + cross_sum first ((x', y') # ps)"

definition contourArea :: "contour \<Rightarrow> real" where
  "contourArea c = (case c of [] \<Rightarrow> 0 | p # _ \<Rightarrow> \<bar>real_of_int (cross_sum p c)\<bar> / 2)"

section \<open>Motion detection\<close>

text \<open>The module-level global \<open>motion_threshold = 5000\<close>; nothing in the program assigns it again.\<close>

definition motion_threshold :: real where
  "motion_threshold = 5000"

text \<open>
  \<open>detect_motion(frame1, frame2)\<close>, up to the local \<open>total_area\<close>. A frame that is
  \<open>None\<close> (a failed \<open>camera.read()\<close>) makes \<open>cv2.cvtColor\<close> raise.
\<close>

definition motion_area :: "cv2 \<Rightarrow> frame option \<Rightarrow> frame option \<Rightarrow> py_error + (real \<times> gray \<times> contour list)" where
  "motion_area cv frame1 frame2 =
     (case frame1 of None \<Rightarrow> Inl CvError | Some f1 \<Rightarrow>
     (case frame2 of None \<Rightarrow> Inl CvError | Some f2 \<Rightarrow>
        (let gray1 = cvtColor_BGR2GRAY cv f1;
             gray2 = cvtColor_BGR2GRAY cv f2
         in (case absdiff gray1 gray2 of Inl e \<Rightarrow> Inl e | Inr frame_diff \<Rightarrow>
              (let thresh = threshold frame_diff 25 255;
                   thresh = dilate thresh 2;
                   contours = findContours cv thresh;
                   total_area = sum_list (map contourArea contours)
               in Inr (total_area, thresh, contours))))))"

text \<open>The function's return statement: \<open>total_area > motion_threshold, thresh, contours\<close>.\<close>

definition detect_motion :: "cv2 \<Rightarrow> frame option \<Rightarrow> frame option \<Rightarrow> py_error + (bool \<times> gray \<times> contour list)" where
  "detect_motion cv frame1 frame2 =
     (case motion_area cv frame1 frame2 of Inl e \<Rightarrow> Inl e
      | Inr (total_area, thresh, contours) \<Rightarrow> Inr (motion_threshold < total_area, thresh, contours))"

text \<open>A mask without a changed pixel.\<close>

definition all_zero :: "gray \<Rightarrow> bool" where
  "all_zero g = list_all (list_all (\<lambda>p. p = 0)) g"

text \<open>
  OpenCV's contract for \<open>findContours\<close> on a mask without a non-zero pixel: there is
  nothing to follow, and the list of contours is empty.
\<close>

definition empty_mask_no_contour :: "cv2 \<Rightarrow> bool" where
  "empty_mask_no_contour cv = (\<forall>m. all_zero m \<longrightarrow> findContours cv m = [])"

section \<open>The program state\<close>

text \<open>
  The module's globals, the locals of \<open>generate_frames\<close> that live across iterations
  (\<open>prev_frame\<close> and where the function stands), and what the program does to the
  outside: files written by \<open>cv2.imwrite\<close>, lines printed, alert threads started.

  Frames are numpy arrays, which the program copies and draws on in place, so a variable
  holds a reference into \<open>heap\<close>; \<open>None\<close> is Python's \<open>None\<close>. References are handed
  out in order by \<open>next_ref\<close>; the program never reads one that was not handed out.
  \<open>camera\<close> is \<open>None\<close> or a capture object with the answer of its \<open>isOpened()\<close>. The
  dictionary appended to \<open>motion_events\<close> has the keys timestamp, image and path. The
  status says where \<open>generate_frames\<close> stands: not called yet, in its loop, returned, or
  ended by an exception.
\<close>

record motion_event =
  timestamp :: string
  image_name :: string
  path :: string

datatype alert_thread = Email_alert string | Sms_alert string

datatype loop_status = Not_started | Running | Returned | Crashed py_error

record state =
  heap :: "nat \<Rightarrow> frame"
  next_ref :: nat
  camera :: "bool option"
  output_frame :: "nat option"
  motion_detected :: bool
  last_motion_time :: "real option"
  frame_count :: int
  motion_events :: "motion_event list"
  prev_frame :: "nat option"
  status :: loop_status
  files :: "string \<rightharpoonup> frame"
  stdout :: "string list"
  threads :: "alert_thread list"

definition init_state :: state where
  "init_state =
     \<lparr>heap = (\<lambda>_. []), next_ref = 0, camera = None, output_frame = None,
      motion_detected = False, last_motion_time = None, frame_count = 0,
      motion_events = [], prev_frame = None, status = Not_started,
      files = Map.empty, stdout = [], threads = []\<rparr>"

text \<open>A new array object; \<open>ndarray.copy()\<close>; an in-place update of an array.\<close>

definition new_array :: "frame \<Rightarrow> state \<Rightarrow> nat \<times> state" where
  "new_array f s = (next_ref s, s\<lparr>heap := (heap s)(next_ref s := f), next_ref := next_ref s + 1\<rparr>)"

definition copy :: "nat \<Rightarrow> state \<Rightarrow> nat \<times> state" where
  "copy a s = new_array (heap s a) s"

definition in_place :: "nat \<Rightarrow> (frame \<Rightarrow> frame) \<Rightarrow> state \<Rightarrow> state" where
  "in_place a g s = s\<lparr>heap := (heap s)(a := g (heap s a))\<rparr>"

definition print :: "string \<Rightarrow> state \<Rightarrow> state" where
  "print line s = s\<lparr>stdout := stdout s @ [line]\<rparr>"

definition UPLOAD_FOLDER :: string where
  "UPLOAD_FOLDER = ''static/captures''"

text \<open>\<open>os.path.join\<close> of two components, with the POSIX separator.\<close>

definition os_path_join :: "string \<Rightarrow> string \<Rightarrow> string" where
  "os_path_join a b =
     (if take 1 b = ''/'' then b
      else if a = [] \<or> take 1 (rev a) = ''/'' then a @ b
      else a @ ''/'' @ b)"

section \<open>The acquisition loop\<close>

text \<open>
  What one iteration takes from outside the program: the result of \<open>camera.read()\<close>
  (\<open>None\<close> when \<open>success\<close> is false), the clock formatted for the overlay (line 185),
  \<open>time.time()\<close> (line 190), the clock formatted for the file name (line 198), and the
  value \<open>cv2.imwrite\<close> returns, which is false when the file could not be written.
  The clock is a real number here; the program's is a double.
\<close>

record iter_input =
  read_result :: "frame option"
  now_display :: string
  time_now :: real
  now_file :: string
  imwrite_ok :: bool

text \<open>\<open>last_motion_time is None or (current_time - last_motion_time) > 5\<close>\<close>

definition alert_due :: "real option \<Rightarrow> real \<Rightarrow> bool" where
  "alert_due last_time current_time =
     (case last_time of None \<Rightarrow> True | Some t \<Rightarrow> 5 < current_time - t)"

definition new_event :: "iter_input \<Rightarrow> motion_event" where
  "new_event i =
     (let filename = ''motion_'' @ now_file i @ ''.jpg''
      in \<lparr>timestamp = now_display i, image_name = filename,
          path = os_path_join UPLOAD_FOLDER filename\<rparr>)"

text \<open>Lines 194 to 216: the body of the inner \<open>if\<close>.\<close>

definition trigger_alert :: "iter_input \<Rightarrow> nat \<Rightarrow> state \<Rightarrow> state" where
  "trigger_alert i frame s =
     (let s = s\<lparr>motion_detected := True, last_motion_time := Some (time_now i)\<rparr>;
          filename = ''motion_'' @ now_file i @ ''.jpg'';
          filepath = os_path_join UPLOAD_FOLDER filename;
          s = (if imwrite_ok i then s\<lparr>files := (files s)(filepath \<mapsto> heap s frame)\<rparr> else s);
          s = s\<lparr>motion_events := new_event i # motion_events s\<rparr>;
          s = (if 20 < length (motion_events s)
               then s\<lparr>motion_events := take 20 (motion_events s)\<rparr> else s)
      in s\<lparr>threads := threads s @
            [Email_alert filepath,
             Sms_alert (''http://yourdomain.com/static/captures/'' @ filename)]\<rparr>)"

text \<open>Lines 174 to 220: the work on a frame that is processed.\<close>

definition process_frame :: "cv2 \<Rightarrow> iter_input \<Rightarrow> nat \<Rightarrow> state \<Rightarrow> state" where
  "process_frame cv i frame s =
     (case detect_motion cv (map_option (heap s) (prev_frame s)) (Some (heap s frame)) of
        Inl e \<Rightarrow> s\<lparr>status := Crashed e\<rparr>
      | Inr (motion, thresh, contours) \<Rightarrow>
          (let (p, s) = copy frame s;
               s = s\<lparr>prev_frame := Some p\<rparr>;
               (frame_with_contours, s) = copy frame s;
               s = in_place frame_with_contours
                     (\<lambda>a. drawContours cv a contours (- 1) (0, 255, 0) 2) s;
               s = in_place frame_with_contours
                     (\<lambda>a. putText cv a (now_display i) (10, int (length (heap s frame)) - 10)
                            FONT_HERSHEY_SIMPLEX 0.5 (0, 0, 255) 1) s;
               s = (if motion \<and> alert_due (last_motion_time s) (time_now i)
                    then trigger_alert i frame s else s);
               (out, s) = copy frame_with_contours s
           in s\<lparr>output_frame := Some out\<rparr>))"

text \<open>One pass of \<open>while True\<close>. A state that is not running takes no step.\<close>

definition loop_body :: "cv2 \<Rightarrow> iter_input \<Rightarrow> state \<Rightarrow> state" where
  "loop_body cv i s =
     (if status s \<noteq> Running then s
      else (case read_result i of
              None \<Rightarrow> s\<lparr>status := Returned\<rparr>
            | Some f \<Rightarrow>
                (let (frame, s) = new_array f s;
                     s = (if frame_count s mod 2 = 0 then process_frame cv i frame s else s)
                 in if status s = Running then s\<lparr>frame_count := frame_count s + 1\<rparr> else s)))"

text \<open>Lines 144 to 165: opening the camera, the placeholder, the first read.\<close>

datatype open_result = Capture bool | Capture_raised string

definition blank_frame :: frame where
  "blank_frame = replicate 480 (replicate 640 (0, 0, 0))"

definition placeholder :: "cv2 \<Rightarrow> state \<Rightarrow> state" where
  "placeholder cv s =
     (let (blank, s) = new_array blank_frame s;
          s = in_place blank
                (\<lambda>a. putText cv a ''Camera not available'' (100, 240)
                       FONT_HERSHEY_SIMPLEX 1 (0, 0, 255) 2) s;
          (out, s) = copy blank s
      in s\<lparr>output_frame := Some out\<rparr>)"

definition open_camera :: "cv2 \<Rightarrow> open_result \<Rightarrow> state \<Rightarrow> state" where
  "open_camera cv opn s =
     (if camera s = None
      then (case opn of
              Capture_raised e \<Rightarrow>
                (placeholder cv (print (''Camera error: '' @ e) s))\<lparr>status := Returned\<rparr>
            | Capture opened \<Rightarrow>
                (let s = s\<lparr>camera := Some opened\<rparr>
                 in if \<not> opened
                    then (placeholder cv (print ''Error: Could not open camera.'' s))
                           \<lparr>status := Returned\<rparr>
                    else s\<lparr>status := Running\<rparr>))
      else s\<lparr>status := Running\<rparr>)"

definition first_read :: "frame option \<Rightarrow> state \<Rightarrow> state" where
  "first_read rd s =
     (if status s \<noteq> Running then s
      else (case rd of
              None \<Rightarrow> s\<lparr>prev_frame := None\<rparr>
            | Some f \<Rightarrow> (let (p, s) = new_array f s in s\<lparr>prev_frame := Some p\<rparr>)))"

text \<open>
  \<open>generate_frames()\<close> on a finite prefix of what the camera delivers: the loop itself
  does not end while the reads succeed.
\<close>

definition generate_frames :: "cv2 \<Rightarrow> open_result \<Rightarrow> frame option \<Rightarrow> iter_input list \<Rightarrow> state \<Rightarrow> state" where
  "generate_frames cv opn rd inputs s = fold (loop_body cv) inputs (first_read rd (open_camera cv opn s))"

section \<open>The stream reader\<close>

text \<open>
  What a reader sees in \<open>output_frame\<close> while it holds the lock, and one pass of the
  loop of \<open>generate_video_feed\<close>: \<open>None\<close> where the pass ends in \<open>continue\<close>, the chunk
  it yields otherwise. The reader changes no state.
\<close>

definition latest :: "state \<Rightarrow> frame option" where
  "latest s = map_option (heap s) (output_frame s)"

definition crlf :: string where
  "crlf = [char_of (13::nat), char_of (10::nat)]"

definition video_feed_pass :: "cv2 \<Rightarrow> state \<Rightarrow> string option" where
  "video_feed_pass cv s =
     (case output_frame s of
        None \<Rightarrow> None
      | Some a \<Rightarrow>
          (let (flag, encoded_image) = imencode_jpg cv (heap s a)
           in if \<not> flag then None
              else Some (''--frame'' @ crlf @ ''Content-Type: image/jpeg'' @ crlf @ crlf
                         @ encoded_image @ crlf)))"

section \<open>The settings form\<close>

text \<open>
  The two dictionaries under \<open>settings\<close>, field by field, and \<open>request.form\<close> as a map
  from field names to the submitted text.
\<close>

record settings =
  email_enabled :: bool
  email_smtp_server :: string
  email_smtp_port :: int
  email_username :: string
  email_password :: string
  email_recipient :: string
  twilio_enabled :: bool
  twilio_account_sid :: string
  twilio_auth_token :: string
  twilio_from_number :: string
  twilio_to_number :: string

type_synonym form = "string \<rightharpoonup> string"

definition form_get :: "form \<Rightarrow> string \<Rightarrow> string \<Rightarrow> string" where
  "form_get f k d = (case f k of None \<Rightarrow> d | Some v \<Rightarrow> v)"

text \<open>
  Python's \<open>int(text)\<close> on ASCII text: surrounding white space is dropped, then an
  optional sign, then decimal digits, where single underscores may stand between digits.
  \<open>None\<close> is the \<open>ValueError\<close>. The white space that \<open>int\<close> drops is the tab, the
  line feed, the vertical tab, the form feed, the carriage return and the space; the
  separators 28 to 31 are not dropped. A text with more digits than the interpreter's
  limit (4300 by default, which the program does not change) is refused.
\<close>

definition is_space :: "char \<Rightarrow> bool" where
  "is_space c = (let n = (of_char c :: nat) in (9 \<le> n \<and> n \<le> 13) \<or> n = 32)"

definition int_max_str_digits :: nat where
  "int_max_str_digits = 4300"

definition digit_of :: "char \<Rightarrow> int option" where
  "digit_of c = (let n = (of_char c :: nat) in if 48 \<le> n \<and> n \<le> 57 then Some (int n - 48) else None)"

fun digits_from :: "int \<Rightarrow> string \<Rightarrow> int option" where
  "digits_from acc [] = Some acc"
| "digits_from acc (c # cs) =
     (if c = CHR ''_''
      then (case cs of
              [] \<Rightarrow> None
            | d # ds \<Rightarrow> (case digit_of d of None \<Rightarrow> None
                         | Some v \<Rightarrow> digits_from (acc * 10 + v) ds))
      else (case digit_of c of None \<Rightarrow> None | Some v \<Rightarrow> digits_from (acc * 10 + v) cs))"

definition unsigned_int :: "string \<Rightarrow> int option" where
  "unsigned_int t =
     (case t of [] \<Rightarrow> None
      | c # cs \<Rightarrow> (case digit_of c of None \<Rightarrow> None | Some v \<Rightarrow> digits_from v cs))"

definition py_int :: "string \<Rightarrow> int option" where
  "py_int text =
     (let t = rev (dropWhile is_space (rev (dropWhile is_space text)))
      in if int_max_str_digits < length (filter (\<lambda>c. digit_of c \<noteq> None) t) then None
         else (case t of
                 [] \<Rightarrow> None
               | c # cs \<Rightarrow>
                   if c = CHR ''-'' then map_option uminus (unsigned_int cs)
                   else if c = CHR ''+'' then unsigned_int cs
                   else unsigned_int t))"

text \<open>
  \<open>update_settings()\<close>: the settings as the request leaves them, and the outcome: the
  exception of \<open>int(...)\<close>, or the flashed message with the redirect's target.
\<close>

definition update_settings :: "form \<Rightarrow> settings \<Rightarrow> settings \<times> (py_error + string \<times> string)" where
  "update_settings f st =
     (let st = st\<lparr>email_enabled := (f ''email_enabled'' \<noteq> None)\<rparr>;
          st = st\<lparr>email_smtp_server := form_get f ''smtp_server'' []\<rparr>
      in case (case f ''smtp_port'' of None \<Rightarrow> Some 587 | Some v \<Rightarrow> py_int v) of
           None \<Rightarrow> (st, Inl ValueError)
         | Some port \<Rightarrow>
             (let st = st\<lparr>email_smtp_port := port\<rparr>;
                  st = st\<lparr>email_username := form_get f ''email_username'' []\<rparr>;
                  st = (case f ''email_password'' of
                          None \<Rightarrow> st
                        | Some v \<Rightarrow> if v \<noteq> [] then st\<lparr>email_password := v\<rparr> else st);
                  st = st\<lparr>email_recipient := form_get f ''email_recipient'' []\<rparr>;
                  st = st\<lparr>twilio_enabled := (f ''twilio_enabled'' \<noteq> None)\<rparr>;
                  st = st\<lparr>twilio_account_sid := form_get f ''twilio_account_sid'' []\<rparr>;
                  st = (case f ''twilio_auth_token'' of
                          None \<Rightarrow> st
                        | Some v \<Rightarrow> if v \<noteq> [] then st\<lparr>twilio_auth_token := v\<rparr> else st);
                  st = st\<lparr>twilio_from_number := form_get f ''twilio_from_number'' []\<rparr>;
                  st = st\<lparr>twilio_to_number := form_get f ''twilio_to_number'' []\<rparr>
              in (st, Inr (''Settings updated successfully!'', ''settings_page''))))"

text \<open>The module's initial \<open>settings\<close>.\<close>

definition init_settings :: settings where
  "init_settings =
     \<lparr>email_enabled = False, email_smtp_server = [], email_smtp_port = 587,
      email_username = [], email_password = [], email_recipient = [],
      twilio_enabled = False, twilio_account_sid = [], twilio_auth_token = [],
      twilio_from_number = [], twilio_to_number = []\<rparr>"

section \<open>The alert threads\<close>

text \<open>
  The bodies of the two threads started for an event, as what they return and the lines
  they print. They read \<open>settings\<close> and the snapshot file when they run. From outside
  come the text of the error that \<open>open\<close> raises for a path that does not exist, and
  the error of the mail server or of the SMS gateway, \<open>None\<close> when the message went out.
\<close>

record alert_env =
  open_error :: "string \<Rightarrow> string"
  smtp_error :: "string option"
  twilio_error :: "string option"

definition send_email_alert :: "settings \<Rightarrow> (string \<rightharpoonup> frame) \<Rightarrow> alert_env \<Rightarrow> string \<Rightarrow> bool \<times> string list" where
  "send_email_alert st fs env image_path =
     (if \<not> email_enabled st then (False, [])
      else (case fs image_path of
              None \<Rightarrow> (False, [''Email error: '' @ open_error env image_path])
            | Some img_data \<Rightarrow>
                (case smtp_error env of
                   None \<Rightarrow> (True, [])
                 | Some e \<Rightarrow> (False, [''Email error: '' @ e]))))"

definition send_sms_alert :: "settings \<Rightarrow> alert_env \<Rightarrow> string \<Rightarrow> bool \<times> string list" where
  "send_sms_alert st env image_url =
     (if \<not> twilio_enabled st then (False, [])
      else (case twilio_error env of
              None \<Rightarrow> (True, [])
            | Some e \<Rightarrow> (False, [''SMS error: '' @ e])))"

text \<open>A started thread runs its target on its argument.\<close>

definition run_thread :: "settings \<Rightarrow> (string \<rightharpoonup> frame) \<Rightarrow> alert_env \<Rightarrow> alert_thread \<Rightarrow> bool \<times> string list" where
  "run_thread st fs env t =
     (case t of
        Email_alert image_path \<Rightarrow> send_email_alert st fs env image_path
      | Sms_alert image_url \<Rightarrow> send_sms_alert st env image_url)"

section \<open>The detector as the specification words it\<close>

text \<open>
  \<open>detect(previous, current, threshold_area)\<close> of the specification, written from its
  sentences and independently of \<open>detect_motion\<close>: intensities, absolute difference per
  pixel, cut at 25, two dilations, external contours, the sum of their areas, and
  \<open>detected = (sum_area > threshold_area)\<close>.
\<close>

record motion_result =
  detected :: bool
  changed_area :: real
  regions :: "contour list"

definition abs_difference :: "8 word \<Rightarrow> 8 word \<Rightarrow> 8 word" where
  "abs_difference a b = word_of_int \<bar>uint a - uint b\<bar>"

definition binarize :: "8 word \<Rightarrow> 8 word" where
  "binarize d = (if 25 < unat d then 255 else 0)"

definition detect_spec :: "cv2 \<Rightarrow> frame \<Rightarrow> frame \<Rightarrow> real \<Rightarrow> motion_result" where
  "detect_spec cv previous current threshold_area =
     (let difference = map2 (map2 abs_difference)
                         (cvtColor_BGR2GRAY cv previous) (cvtColor_BGR2GRAY cv current);
          mask = dilate1 (dilate1 (map (map binarize) difference));
          rs = findContours cv mask;
          sum_area = (\<Sum>r \<leftarrow> rs. contourArea r)
      in \<lparr>detected = (sum_area > threshold_area), changed_area = sum_area, regions = rs\<rparr>)"

section \<open>Auxiliary notions for the proofs\<close>

text \<open>The overlay of lines 181 to 187 as a function of the raw frame.\<close>

definition annotate :: "cv2 \<Rightarrow> iter_input \<Rightarrow> contour list \<Rightarrow> frame \<Rightarrow> frame" where
  "annotate cv i contours f =
     putText cv (drawContours cv f contours (- 1) (0, 255, 0) 2) (now_display i)
       (10, int (length f) - 10) FONT_HERSHEY_SIMPLEX 0.5 (0, 0, 255) 1"

text \<open>The frame published when the camera cannot be opened.\<close>

definition placeholder_frame :: "cv2 \<Rightarrow> frame" where
  "placeholder_frame cv =
     putText cv blank_frame ''Camera not available'' (100, 240) FONT_HERSHEY_SIMPLEX 1 (0, 0, 255) 2"

text \<open>Every reference held in a variable was handed out by the allocator.\<close>

definition refs_ok :: "state \<Rightarrow> bool" where
  "refs_ok s =
     ((case prev_frame s of None \<Rightarrow> True | Some p \<Rightarrow> p < next_ref s) \<and>
      (case output_frame s of None \<Rightarrow> True | Some a \<Rightarrow> a < next_ref s))"

text \<open>The event log is within its cap, and it is empty exactly while no alert time is set.\<close>

definition log_ok :: "state \<Rightarrow> bool" where
  "log_ok s =
     (length (motion_events s) \<le> 20 \<and>
      (last_motion_time s = None) = (motion_events s = []))"

text \<open>
  An iteration publishes when it reaches line 220: the loop runs, the read succeeds, the
  frame is one of those processed, and \<open>detect_motion\<close> returns.
\<close>

definition publishes :: "cv2 \<Rightarrow> iter_input \<Rightarrow> state \<Rightarrow> bool" where
  "publishes cv i s =
     (status s = Running \<and> frame_count s mod 2 = 0 \<and>
      (case read_result i of
         None \<Rightarrow> False
       | Some f \<Rightarrow> (case detect_motion cv (map_option (heap s) (prev_frame s)) (Some f) of
                     Inl e \<Rightarrow> False | Inr r \<Rightarrow> True)))"

text \<open>
  An iteration with a positive detection: the loop runs, the frame is one of those
  processed, the read succeeds and \<open>detect_motion\<close> returns with its flag set.
\<close>

definition positive_detection :: "cv2 \<Rightarrow> iter_input \<Rightarrow> state \<Rightarrow> bool" where
  "positive_detection cv i s =
     (status s = Running \<and> frame_count s mod 2 = 0 \<and>
      (case read_result i of
         None \<Rightarrow> False
       | Some f \<Rightarrow> (case detect_motion cv (map_option (heap s) (prev_frame s)) (Some f) of
                     Inl e \<Rightarrow> False | Inr r \<Rightarrow> fst r)))"

text \<open>The two threads of lines 214 and 216.\<close>

definition alerts_for :: "iter_input \<Rightarrow> alert_thread list" where
  "alerts_for i =
     [Email_alert (path (new_event i)),
      Sms_alert (''http://yourdomain.com/static/captures/'' @ image_name (new_event i))]"

text \<open>No iteration of a run publishes.\<close>

fun none_publishes :: "cv2 \<Rightarrow> iter_input list \<Rightarrow> state \<Rightarrow> bool" where
  "none_publishes cv [] s = True"
| "none_publishes cv (i # rest) s = (\<not> publishes cv i s \<and> none_publishes cv rest (loop_body cv i s))"

text \<open>What a reader yields for a frame it has seen.\<close>

definition chunk_of :: "cv2 \<Rightarrow> frame \<Rightarrow> string option" where
  "chunk_of cv f =
     (if fst (imencode_jpg cv f)
      then Some (''--frame'' @ crlf @ ''Content-Type: image/jpeg'' @ crlf @ crlf
                 @ snd (imencode_jpg cv f) @ crlf)
      else None)"

section \<open>A concrete instance of the OpenCV interface\<close>

text \<open>
  For evaluation on concrete frames. The colour conversion is OpenCV's fixed-point
  formula; \<open>findContours\<close> is right on the two masks used below, the empty one (no
  contour) and the full one (one contour, the image's border); the drawing routines set
  single pixels and the encoder always succeeds.
\<close>

definition gray_of_pixel :: "pixel \<Rightarrow> 8 word" where
  "gray_of_pixel p =
     (case p of (b, g, r) \<Rightarrow>
        word_of_nat ((unat r * 4899 + unat g * 9617 + unat b * 1868 + 8192) div 16384))"

definition border_contour :: "gray \<Rightarrow> contour" where
  "border_contour m =
     (case m of [] \<Rightarrow> []
      | row # _ \<Rightarrow> [(0, 0), (0, int (length m) - 1),
                    (int (length row) - 1, int (length m) - 1), (int (length row) - 1, 0)])"

definition set_pixel :: "frame \<Rightarrow> int \<times> int \<Rightarrow> colour \<Rightarrow> frame" where
  "set_pixel f org c =
     (case (org, c) of ((x, y), (b, g, r)) \<Rightarrow>
        if 0 \<le> y \<and> nat y < length f \<and> 0 \<le> x \<and> nat x < length (f ! nat y)
        then f[nat y := (f ! nat y)[nat x := (word_of_nat b, word_of_nat g, word_of_nat r)]]
        else f)"

definition sample_cv :: cv2 where
  "sample_cv =
     \<lparr>cvtColor_BGR2GRAY = map (map gray_of_pixel),
      findContours = (\<lambda>m. if all_zero m then [] else [border_contour m]),
      drawContours = (\<lambda>f cs idx c thickness. fold (\<lambda>ct f. fold (\<lambda>pt f. set_pixel f pt c) ct f) cs f),
      putText = (\<lambda>f txt org font scale c thickness. set_pixel f org c),
      imencode_jpg = (\<lambda>f. (True, ''JFIF''))\<rparr>"

definition solid :: "nat \<Rightarrow> nat \<Rightarrow> pixel \<Rightarrow> frame" where
  "solid h w p = replicate h (replicate w p)"

definition dark :: frame where
  "dark = solid 100 100 (0, 0, 0)"

definition light :: frame where
  "light = solid 100 100 (255, 255, 255)"

text \<open>An iteration's input: what was read, the time, and whether the write succeeds.\<close>

definition shot :: "frame option \<Rightarrow> real \<Rightarrow> bool \<Rightarrow> iter_input" where
  "shot rd t ok =
     \<lparr>read_result = rd, now_display = ''2024-05-01 12:00:00'', time_now = t,
      now_file = ''20240501_120000'', imwrite_ok = ok\<rparr>"

text \<open>
  A run that fills the log: in minute k the camera delivers a frame that differs from
  the one processed before, then a frame that the loop skips.
\<close>

definition two_digits :: "nat \<Rightarrow> string" where
  "two_digits k = [char_of (48 + k div 10), char_of (48 + k mod 10)]"

definition minute :: "nat \<Rightarrow> frame \<Rightarrow> iter_input" where
  "minute k f =
     \<lparr>read_result = Some f, now_display = ''2024-05-01 12:'' @ two_digits k @ '':00'',
      time_now = 60 * real k, now_file = ''20240501_12'' @ two_digits k @ ''00'',
      imwrite_ok = True\<rparr>"

fun feed :: "nat \<Rightarrow> iter_input list" where
  "feed 0 = []"
| "feed (Suc k) = feed k @ [minute k (if even k then light else dark), minute k dark]"

text \<open>An environment of the alert threads in which mail and SMS go out.\<close>

definition calm_env :: alert_env where
  "calm_env =
     \<lparr>open_error = (\<lambda>p. ''[Errno 2] No such file or directory: '' @ p),
      smtp_error = None, twilio_error = None\<rparr>"

section \<open>Motion detection: lemmas\<close>

lemma absdiff_same: "absdiff g g = Inr (map (map (\<lambda>_. 0)) g)"
proof -
  have row: "map2 (\<lambda>a b. if a \<le> b then b - a else a - b) r r = map (\<lambda>_. 0::8 word) r" for r :: "8 word list"
    by (induction r) auto
  have "map2 (map2 (\<lambda>a b. if a \<le> b then b - a else a - b)) g g = map (map (\<lambda>_. 0::8 word)) g"
    by (induction g) (auto simp: row)
  then show ?thesis by (simp add: absdiff_def)
qed

lemma all_zero_const: "all_zero (map (map (\<lambda>_. 0)) g)"
  by (simp add: all_zero_def list_all_iff)

lemma all_zero_threshold:
  assumes "all_zero g"
  shows "all_zero (threshold g t m)"
proof -
  have "\<not> t < x" if "x = 0" for x :: "8 word"
    using that by simp
  with assms show ?thesis
    by (fastforce simp: all_zero_def threshold_def list_all_iff)
qed

lemma all_zero_nth: "all_zero g \<Longrightarrow> i < length g \<Longrightarrow> j < length (g ! i) \<Longrightarrow> g ! i ! j = 0"
  by (simp add: all_zero_def list_all_length)

lemma fold_max_zero: "\<forall>x \<in> set xs. x = (0::8 word) \<Longrightarrow> fold max xs 0 = 0"
  by (induction xs) auto

lemma neighbours_zero:
  assumes "all_zero g"
  shows "\<forall>x \<in> set (neighbours g i j). x = 0"
  using assms by (auto simp: neighbours_def all_zero_nth)

lemma all_zero_dilate1:
  assumes "all_zero g"
  shows "all_zero (dilate1 g)"
proof -
  have "dilate1 g = map (\<lambda>i. map (\<lambda>j. 0) [0 ..< length (g ! i)]) [0 ..< length g]"
    using fold_max_zero [OF neighbours_zero [OF assms]] by (simp add: dilate1_def)
  then show ?thesis
    by (simp add: all_zero_def list_all_iff)
qed

lemma all_zero_dilate: "all_zero g \<Longrightarrow> all_zero (dilate g n)"
  by (induction n) (auto simp: dilate_def all_zero_dilate1)

section \<open>One iteration, case by case\<close>

lemma loop_body_idle: "status s \<noteq> Running \<Longrightarrow> loop_body cv i s = s"
  by (simp add: loop_body_def)

lemma fold_loop_body_idle: "status s \<noteq> Running \<Longrightarrow> fold (loop_body cv) ins s = s"
  by (induction ins) (simp_all add: loop_body_idle)

lemma loop_body_break:
  "status s = Running \<Longrightarrow> read_result i = None \<Longrightarrow> loop_body cv i s = s\<lparr>status := Returned\<rparr>"
  by (simp add: loop_body_def)

lemma loop_body_skip:
  "status s = Running \<Longrightarrow> read_result i = Some f \<Longrightarrow> frame_count s mod 2 \<noteq> 0 \<Longrightarrow>
   loop_body cv i s =
     s\<lparr>heap := (heap s)(next_ref s := f), next_ref := next_ref s + 1,
       frame_count := frame_count s + 1\<rparr>"
  by (simp add: loop_body_def new_array_def)

lemma prev_after_read:
  "refs_ok s \<Longrightarrow> map_option ((heap s)(next_ref s := f)) (prev_frame s) = map_option (heap s) (prev_frame s)"
  by (auto simp: refs_ok_def split: option.splits)

lemma ref_arith:
  "n + 2 = Suc (Suc n)" "n + 3 = Suc (Suc (Suc n))" "n + 4 = Suc (Suc (Suc (Suc n)))"
  by simp_all

lemma trigger_alert_eq:
  "trigger_alert i fr s =
     s\<lparr>motion_detected := True,
       last_motion_time := Some (time_now i),
       files := (if imwrite_ok i then (files s)(path (new_event i) \<mapsto> heap s fr) else files s),
       motion_events := take 20 (new_event i # motion_events s),
       threads := threads s @
         [Email_alert (path (new_event i)),
          Sms_alert (''http://yourdomain.com/static/captures/'' @ image_name (new_event i))]\<rparr>"
proof -
  have cap: "(if 20 < length (e # evs) then take 20 (e # evs) else e # evs) = take 20 (e # evs)"
    for e :: motion_event and evs
    by simp
  have name: "image_name (new_event i) = ''motion_'' @ now_file i @ ''.jpg''"
    and fpath: "path (new_event i) = os_path_join UPLOAD_FOLDER (''motion_'' @ now_file i @ ''.jpg'')"
    by (simp_all add: new_event_def Let_def)
  show ?thesis
    unfolding trigger_alert_def Let_def name fpath
    by (cases "imwrite_ok i") (simp_all only: cap state.simps if_True if_False list.size, simp_all)
qed

lemma loop_body_crash:
  assumes "status s = Running" "read_result i = Some f" "frame_count s mod 2 = 0" "refs_ok s"
    and "detect_motion cv (map_option (heap s) (prev_frame s)) (Some f) = Inl e"
  shows "loop_body cv i s =
     s\<lparr>heap := (heap s)(next_ref s := f), next_ref := next_ref s + 1, status := Crashed e\<rparr>"
  using assms prev_after_read [OF assms(4), of f]
  by (simp add: loop_body_def process_frame_def new_array_def)

lemma loop_body_quiet:
  assumes "status s = Running" "read_result i = Some f" "frame_count s mod 2 = 0" "refs_ok s"
    and "detect_motion cv (map_option (heap s) (prev_frame s)) (Some f) = Inr (m, th, cs)"
    and "\<not> (m \<and> alert_due (last_motion_time s) (time_now i))"
  shows "loop_body cv i s =
     s\<lparr>heap := (heap s)(next_ref s := f, next_ref s + 1 := f,
                         next_ref s + 2 := annotate cv i cs f,
                         next_ref s + 3 := annotate cv i cs f),
       next_ref := next_ref s + 4,
       prev_frame := Some (next_ref s + 1),
       output_frame := Some (next_ref s + 3),
       frame_count := frame_count s + 1\<rparr>"
  using assms prev_after_read [OF assms(4), of f]
  by (cases m) (simp_all add: loop_body_def process_frame_def new_array_def copy_def in_place_def
      Let_def annotate_def ref_arith)

lemma loop_body_alert:
  assumes "status s = Running" "read_result i = Some f" "frame_count s mod 2 = 0" "refs_ok s"
    and "detect_motion cv (map_option (heap s) (prev_frame s)) (Some f) = Inr (True, th, cs)"
    and "alert_due (last_motion_time s) (time_now i)"
  shows "loop_body cv i s =
     s\<lparr>heap := (heap s)(next_ref s := f, next_ref s + 1 := f,
                         next_ref s + 2 := annotate cv i cs f,
                         next_ref s + 3 := annotate cv i cs f),
       next_ref := next_ref s + 4,
       prev_frame := Some (next_ref s + 1),
       output_frame := Some (next_ref s + 3),
       frame_count := frame_count s + 1,
       motion_detected := True,
       last_motion_time := Some (time_now i),
       files := (if imwrite_ok i then (files s)(path (new_event i) \<mapsto> f) else files s),
       motion_events := take 20 (new_event i # motion_events s),
       threads := threads s @
         [Email_alert (path (new_event i)),
          Sms_alert (''http://yourdomain.com/static/captures/'' @ image_name (new_event i))]\<rparr>"
  using assms prev_after_read [OF assms(4), of f]
  by (simp add: loop_body_def process_frame_def new_array_def copy_def in_place_def
      trigger_alert_eq Let_def annotate_def ref_arith)

section \<open>Invariants of the loop\<close>

lemma loop_body_cases [consumes 1, case_names idle break skip crash quiet alert]:
  fixes s :: state and i :: iter_input
  assumes "refs_ok s"
  obtains "status s \<noteq> Running"
  | "status s = Running" "read_result i = None"
  | f where "status s = Running" "read_result i = Some f" "frame_count s mod 2 \<noteq> 0"
  | f e where "status s = Running" "read_result i = Some f" "frame_count s mod 2 = 0"
      "detect_motion cv (map_option (heap s) (prev_frame s)) (Some f) = Inl e"
  | f m th cs where "status s = Running" "read_result i = Some f" "frame_count s mod 2 = 0"
      "detect_motion cv (map_option (heap s) (prev_frame s)) (Some f) = Inr (m, th, cs)"
      "\<not> (m \<and> alert_due (last_motion_time s) (time_now i))"
  | f th cs where "status s = Running" "read_result i = Some f" "frame_count s mod 2 = 0"
      "detect_motion cv (map_option (heap s) (prev_frame s)) (Some f) = Inr (True, th, cs)"
      "alert_due (last_motion_time s) (time_now i)"
proof (cases "status s = Running")
  case False
  show ?thesis by (rule that(1) [OF False])
next
  case run: True
  show ?thesis
  proof (cases "read_result i")
    case None
    show ?thesis by (rule that(2) [OF run None])
  next
    case (Some f)
    show ?thesis
    proof (cases "frame_count s mod 2 = 0")
      case False
      show ?thesis by (rule that(3) [OF run Some False])
    next
      case even: True
      show ?thesis
      proof (cases "detect_motion cv (map_option (heap s) (prev_frame s)) (Some f)")
        case (Inl e)
        show ?thesis by (rule that(4) [OF run Some even Inl])
      next
        case (Inr r)
        then obtain m th cs where r: "detect_motion cv (map_option (heap s) (prev_frame s)) (Some f) = Inr (m, th, cs)"
          by (cases r) auto
        show ?thesis
        proof (cases "m \<and> alert_due (last_motion_time s) (time_now i)")
          case True
          then have m and due: "alert_due (last_motion_time s) (time_now i)" by simp_all
          from r \<open>m\<close> have r': "detect_motion cv (map_option (heap s) (prev_frame s)) (Some f) = Inr (True, th, cs)" by simp
          show ?thesis by (rule that(6) [OF run Some even r' due])
        next
          case False
          show ?thesis by (rule that(5) [OF run Some even r False])
        qed
      qed
    qed
  qed
qed

lemma refs_ok_loop_body: "refs_ok s \<Longrightarrow> refs_ok (loop_body cv i s)"
proof -
  assume ok: "refs_ok s"
  from ok show ?thesis
  proof (cases rule: loop_body_cases [where i = i and cv = cv])
    case idle
    with ok show ?thesis by (simp add: loop_body_idle)
  next
    case break
    with ok show ?thesis by (auto simp: loop_body_break refs_ok_def split: option.splits)
  next
    case (skip f)
    with ok show ?thesis by (auto simp: loop_body_skip refs_ok_def split: option.splits)
  next
    case (crash f e)
    with ok show ?thesis by (auto simp: loop_body_crash refs_ok_def split: option.splits)
  next
    case (quiet f m th cs)
    with ok show ?thesis by (auto simp: loop_body_quiet refs_ok_def split: option.splits)
  next
    case (alert f th cs)
    with ok show ?thesis by (auto simp: loop_body_alert refs_ok_def split: option.splits)
  qed
qed

lemma log_ok_loop_body: "refs_ok s \<Longrightarrow> log_ok s \<Longrightarrow> log_ok (loop_body cv i s)"
proof -
  assume ok: "refs_ok s" and lg: "log_ok s"
  from ok show ?thesis
  proof (cases rule: loop_body_cases [where i = i and cv = cv])
    case idle
    with lg show ?thesis by (simp add: loop_body_idle)
  next
    case break
    with lg show ?thesis by (simp add: loop_body_break log_ok_def)
  next
    case (skip f)
    with lg show ?thesis by (simp add: loop_body_skip log_ok_def)
  next
    case (crash f e)
    with ok lg show ?thesis by (simp add: loop_body_crash log_ok_def)
  next
    case (quiet f m th cs)
    with ok lg show ?thesis by (simp add: loop_body_quiet log_ok_def)
  next
    case (alert f th cs)
    with ok lg show ?thesis by (simp add: loop_body_alert log_ok_def)
  qed
qed

lemma invariants_fold:
  "refs_ok s \<Longrightarrow> log_ok s \<Longrightarrow>
   refs_ok (fold (loop_body cv) ins s) \<and> log_ok (fold (loop_body cv) ins s)"
  by (induction ins arbitrary: s) (simp_all add: refs_ok_loop_body log_ok_loop_body)

lemma placeholder_eq:
  "placeholder cv s =
     s\<lparr>heap := (heap s)(next_ref s := placeholder_frame cv, next_ref s + 1 := placeholder_frame cv),
       next_ref := next_ref s + 2,
       output_frame := Some (next_ref s + 1)\<rparr>"
  by (simp add: placeholder_def new_array_def copy_def in_place_def placeholder_frame_def Let_def ref_arith)

lemma invariants_start:
  "refs_ok (first_read rd (open_camera cv opn init_state)) \<and>
   log_ok (first_read rd (open_camera cv opn init_state))"
  by (cases opn; cases rd)
     (auto simp: first_read_def open_camera_def init_state_def placeholder_eq print_def
        new_array_def refs_ok_def log_ok_def Let_def split: option.splits)

lemma invariants_run:
  "refs_ok (generate_frames cv opn rd ins init_state) \<and>
   log_ok (generate_frames cv opn rd ins init_state)"
  unfolding generate_frames_def using invariants_start invariants_fold by blast

section \<open>The concrete instance on solid frames\<close>

lemma fold_max_const:
  "\<forall>x \<in> set xs. x = c \<Longrightarrow> fold max xs a = (if xs = [] then a else max c (a::8 word))"
  by (induction xs arbitrary: a) (auto simp: max.assoc)

lemma neighbours_const:
  assumes "i < h" "j < w"
  shows "set (neighbours (replicate h (replicate w c)) i j) = {c}"
proof -
  have rows: "[i - 1 ..< min (i + 2) h] \<noteq> []" and cols: "[j - 1 ..< min (j + 2) w] \<noteq> []"
    using assms by auto
  have "set (neighbours (replicate h (replicate w c)) i j) \<subseteq> {c}"
    by (auto simp: neighbours_def)
  moreover have "c \<in> set (neighbours (replicate h (replicate w c)) i j)"
  proof -
    have "i \<in> {i - 1 ..< min (i + 2) h}" and "j \<in> {j - 1 ..< min (j + 2) w}"
      using assms by auto
    then show ?thesis
      using assms by (force simp: neighbours_def)
  qed
  ultimately show ?thesis by blast
qed

lemma dilate1_const: "dilate1 (replicate h (replicate w c)) = replicate h (replicate w c)"
proof -
  have px: "fold max (neighbours (replicate h (replicate w c)) i j) 0 = c" if "i < h" "j < w" for i j
  proof -
    have s: "set (neighbours (replicate h (replicate w c)) i j) = {c}"
      using that by (rule neighbours_const)
    then have "neighbours (replicate h (replicate w c)) i j \<noteq> []" by auto
    moreover have "\<forall>x \<in> set (neighbours (replicate h (replicate w c)) i j). x = c"
      using s by simp
    ultimately show ?thesis by (simp add: fold_max_const)
  qed
  have "dilate1 (replicate h (replicate w c)) = map (\<lambda>i. map (\<lambda>j. c) [0 ..< w]) [0 ..< h]"
    unfolding dilate1_def by (auto simp: px)
  then show ?thesis by (simp add: map_replicate_const)
qed

lemma dilate_const: "dilate (replicate h (replicate w c)) n = replicate h (replicate w c)"
  by (induction n) (simp_all add: dilate_def dilate1_const)

lemma absdiff_const:
  "absdiff (replicate h (replicate w a)) (replicate h (replicate w b)) =
     Inr (replicate h (replicate w (if a \<le> b then b - a else a - b)))"
  by (simp add: absdiff_def zip_replicate map_replicate_const)

lemma threshold_const:
  "threshold (replicate h (replicate w a)) t m = replicate h (replicate w (if t < a then m else 0))"
  by (simp add: threshold_def)

lemma gray_solid: "cvtColor_BGR2GRAY sample_cv (solid h w p) = replicate h (replicate w (gray_of_pixel p))"
  by (simp add: sample_cv_def solid_def)

lemma gray_black: "gray_of_pixel (0, 0, 0) = 0"
  by (simp add: gray_of_pixel_def)

lemma gray_white: "gray_of_pixel (255, 255, 255) = 255"
  by (simp add: gray_of_pixel_def)

lemma not_all_zero_full: "\<not> all_zero (replicate 100 (replicate 100 (255::8 word)))"
  by (simp add: all_zero_def list_all_iff)

lemma border_full: "border_contour (replicate 100 (replicate 100 (255::8 word))) = [(0, 0), (0, 99), (99, 99), (99, 0)]"
proof -
  have "replicate 100 (replicate 100 (255::8 word)) = replicate 100 255 # replicate 99 (replicate 100 255)"
    by (simp add: replicate_Suc [symmetric] del: replicate_Suc)
  then show ?thesis
    by (simp add: border_contour_def)
qed

lemma area_border: "contourArea [(0, 0), (0, 99), (99, 99), (99, 0)] = 9801"
  by (simp add: contourArea_def)

lemma contours_sample:
  "findContours sample_cv m = (if all_zero m then [] else [border_contour m])"
  by (simp add: sample_cv_def)

lemma motion_area_dark_light:
  "motion_area sample_cv (Some dark) (Some light) =
     Inr (9801, replicate 100 (replicate 100 255), [[(0, 0), (0, 99), (99, 99), (99, 0)]])"
  by (simp add: motion_area_def dark_def light_def gray_solid gray_black gray_white absdiff_const
      threshold_const dilate_const not_all_zero_full border_full area_border contours_sample Let_def)

lemma motion_area_light_dark:
  "motion_area sample_cv (Some light) (Some dark) =
     Inr (9801, replicate 100 (replicate 100 255), [[(0, 0), (0, 99), (99, 99), (99, 0)]])"
  by (simp add: motion_area_def dark_def light_def gray_solid gray_black gray_white absdiff_const
      threshold_const dilate_const not_all_zero_full border_full area_border contours_sample Let_def)

lemma detect_dark_light:
  "detect_motion sample_cv (Some dark) (Some light) =
     Inr (True, replicate 100 (replicate 100 255), [[(0, 0), (0, 99), (99, 99), (99, 0)]])"
  by (simp add: detect_motion_def motion_area_dark_light motion_threshold_def)

lemma detect_light_dark:
  "detect_motion sample_cv (Some light) (Some dark) =
     Inr (True, replicate 100 (replicate 100 255), [[(0, 0), (0, 99), (99, 99), (99, 0)]])"
  by (simp add: detect_motion_def motion_area_light_dark motion_threshold_def)

section \<open>Motion detection: the claims\<close>

lemma abs_difference_eq: "abs_difference a b = (if a \<le> b then b - a else a - b)"
proof (cases "a \<le> b")
  case True
  then have "uint a \<le> uint b" by (simp add: word_le_def)
  then have "\<bar>uint a - uint b\<bar> = uint b - uint a" by simp
  with True show ?thesis by (simp add: abs_difference_def)
next
  case False
  then have "uint b \<le> uint a" by (simp add: word_le_def)
  then have "\<bar>uint a - uint b\<bar> = uint a - uint b" by simp
  with False show ?thesis by (simp add: abs_difference_def)
qed

lemma binarize_eq: "binarize d = (if 25 < d then 255 else 0)"
proof -
  have "(25 < unat d) = (25 < d)"
    by (simp add: word_less_nat_alt)
  then show ?thesis by (simp add: binarize_def)
qed

lemma detect_spec_mask:
  assumes "map length g1 = map length g2"
  shows "absdiff g1 g2 = Inr (map2 (map2 abs_difference) g1 g2)"
proof -
  have "abs_difference = (\<lambda>a b. if a \<le> b then b - a else a - b)"
    by (intro ext) (rule abs_difference_eq)
  with assms show ?thesis
    by (simp add: absdiff_def)
qed

lemma threshold_binarize: "threshold g 25 255 = map (map binarize) g"
proof -
  have "binarize = (\<lambda>x. if 25 < x then 255 else 0)"
    by (intro ext) (rule binarize_eq)
  then show ?thesis by (simp add: threshold_def)
qed

lemma dilate_twice: "dilate g 2 = dilate1 (dilate1 g)"
  by (simp add: dilate_def numeral_2_eq_2)

text \<open>
  C4. For every frame F, detection on the pair (F, F) reports no motion and a changed
  area of 0: \<open>total_area\<close> is 0 and the returned flag is false. OpenCV's contract that a
  mask without a non-zero pixel has no contour is the hypothesis on the interface.
\<close>

theorem detect_identical_frames:
  assumes "empty_mask_no_contour cv"
  shows "\<exists>thresh. motion_area cv (Some F) (Some F) = Inr (0, thresh, [])
           \<and> detect_motion cv (Some F) (Some F) = Inr (False, thresh, [])"
proof -
  let ?g = "cvtColor_BGR2GRAY cv F"
  let ?mask = "dilate (threshold (map (map (\<lambda>_. 0)) ?g) 25 255) 2"
  have "all_zero ?mask"
    by (intro all_zero_dilate all_zero_threshold all_zero_const)
  with assms have none: "findContours cv ?mask = []"
    by (simp add: empty_mask_no_contour_def)
  have area: "motion_area cv (Some F) (Some F) = Inr (0, ?mask, [])"
    by (simp add: motion_area_def absdiff_same none Let_def)
  then have "detect_motion cv (Some F) (Some F) = Inr (False, ?mask, [])"
    by (simp add: detect_motion_def motion_threshold_def)
  with area show ?thesis by blast
qed

theorem detect_identical_frames_witness:
  "empty_mask_no_contour sample_cv
   \<and> (\<exists>thresh. motion_area sample_cv (Some light) (Some light) = Inr (0, thresh, [])
           \<and> detect_motion sample_cv (Some light) (Some light) = Inr (False, thresh, []))"
proof -
  have h: "empty_mask_no_contour sample_cv"
    by (simp add: empty_mask_no_contour_def contours_sample)
  show ?thesis
    using h detect_identical_frames [OF h, of light] by blast
qed

text \<open>
  C3, as stated, fails: the threshold is not an argument of \<open>detect_motion\<close>. On a dark
  and a light frame the contour area is 9801; a caller asking for the threshold 10000
  would get "no motion" from the specification's detector, and the program reports motion.
\<close>

theorem detect_threshold_counterexample:
  "map_sum id fst (detect_motion sample_cv (Some dark) (Some light)) = Inr True
   \<and> changed_area (detect_spec sample_cv dark light 10000) = 9801
   \<and> detected (detect_spec sample_cv dark light 10000) = False"
proof -
  have shape: "map length (cvtColor_BGR2GRAY sample_cv dark) = map length (cvtColor_BGR2GRAY sample_cv light)"
    by (simp add: dark_def light_def gray_solid)
  have "motion_area sample_cv (Some dark) (Some light) =
          Inr (changed_area (detect_spec sample_cv dark light 10000),
               dilate1 (dilate1 (map (map binarize)
                 (map2 (map2 abs_difference) (cvtColor_BGR2GRAY sample_cv dark) (cvtColor_BGR2GRAY sample_cv light)))),
               regions (detect_spec sample_cv dark light 10000))"
    by (simp add: motion_area_def detect_spec_mask [OF shape] threshold_binarize dilate_twice
        detect_spec_def Let_def)
  then have area: "changed_area (detect_spec sample_cv dark light 10000) = 9801"
    by (simp add: motion_area_dark_light)
  have "detected (detect_spec sample_cv dark light 10000)
          = (10000 < changed_area (detect_spec sample_cv dark light 10000))"
    by (simp add: detect_spec_def Let_def)
  with area show ?thesis
    by (simp add: detect_dark_light)
qed

text \<open>
  C3, amended. For every pair of frames whose intensity images have the same shape,
  \<open>detect_motion\<close> takes the intensities, the absolute difference per pixel, the cut at
  25, two dilations, the external contours and the sum of their areas, as the
  specification's detector does; the flag it returns is (sum of areas > 5000), where 5000
  is the module's global \<open>motion_threshold\<close>, which the function reads and no caller
  supplies.
\<close>

theorem detect_motion_pipeline:
  assumes "map length (cvtColor_BGR2GRAY cv f1) = map length (cvtColor_BGR2GRAY cv f2)"
  shows "motion_threshold = 5000
    \<and> (\<exists>mask. motion_area cv (Some f1) (Some f2)
                 = Inr (changed_area (detect_spec cv f1 f2 5000), mask, regions (detect_spec cv f1 f2 5000))
              \<and> detect_motion cv (Some f1) (Some f2)
                 = Inr (detected (detect_spec cv f1 f2 5000), mask, regions (detect_spec cv f1 f2 5000)))"
proof -
  let ?mask = "dilate1 (dilate1 (map (map binarize)
                 (map2 (map2 abs_difference) (cvtColor_BGR2GRAY cv f1) (cvtColor_BGR2GRAY cv f2))))"
  have area: "motion_area cv (Some f1) (Some f2)
          = Inr (changed_area (detect_spec cv f1 f2 5000), ?mask, regions (detect_spec cv f1 f2 5000))"
    by (simp add: motion_area_def detect_spec_mask [OF assms] threshold_binarize dilate_twice
        detect_spec_def Let_def)
  have "detected (detect_spec cv f1 f2 5000) = (5000 < changed_area (detect_spec cv f1 f2 5000))"
    by (simp add: detect_spec_def Let_def)
  with area have "detect_motion cv (Some f1) (Some f2)
          = Inr (detected (detect_spec cv f1 f2 5000), ?mask, regions (detect_spec cv f1 f2 5000))"
    by (simp add: detect_motion_def motion_threshold_def)
  with area show ?thesis
    by (auto simp: motion_threshold_def)
qed

theorem detect_motion_pipeline_witness:
  "map length (cvtColor_BGR2GRAY sample_cv dark) = map length (cvtColor_BGR2GRAY sample_cv light)
   \<and> motion_threshold = 5000
   \<and> (\<exists>mask. motion_area sample_cv (Some dark) (Some light)
                 = Inr (changed_area (detect_spec sample_cv dark light 5000), mask,
                        regions (detect_spec sample_cv dark light 5000))
              \<and> detect_motion sample_cv (Some dark) (Some light)
                 = Inr (detected (detect_spec sample_cv dark light 5000), mask,
                        regions (detect_spec sample_cv dark light 5000)))"
proof -
  have h: "map length (cvtColor_BGR2GRAY sample_cv dark) = map length (cvtColor_BGR2GRAY sample_cv light)"
    by (simp add: dark_def light_def gray_solid)
  show ?thesis
    using h detect_motion_pipeline [OF h] by blast
qed

section \<open>The debounce: lemmas\<close>

lemma start_ok:
  "first_read (Some f0) (open_camera cv (Capture True) init_state) =
     init_state\<lparr>camera := Some True, status := Running,
       heap := (heap init_state)(0 := f0), next_ref := 1, prev_frame := Some 0\<rparr>"
  by (simp add: first_read_def open_camera_def new_array_def init_state_def)

lemma debounce_step:
  assumes "s = generate_frames cv opn rd ins init_state"
    and "positive_detection cv i s"
  shows "if motion_events s = [] \<or> (\<exists>t. last_motion_time s = Some t \<and> 5 < time_now i - t)
         then motion_events (loop_body cv i s) = take 20 (new_event i # motion_events s)
              \<and> threads (loop_body cv i s) = threads s @ alerts_for i
              \<and> last_motion_time (loop_body cv i s) = Some (time_now i)
         else motion_events (loop_body cv i s) = motion_events s
              \<and> threads (loop_body cv i s) = threads s
              \<and> last_motion_time (loop_body cv i s) = last_motion_time s
              \<and> files (loop_body cv i s) = files s"
proof -
  have ok: "refs_ok s" and lg: "log_ok s"
    using invariants_run assms(1) by simp_all
  from assms(2) obtain f th cs where run: "status s = Running" and even: "frame_count s mod 2 = 0"
    and rd: "read_result i = Some f"
    and det: "detect_motion cv (map_option (heap s) (prev_frame s)) (Some f) = Inr (True, th, cs)"
    by (auto simp: positive_detection_def split: option.splits sum.splits)
  have due: "(motion_events s = [] \<or> (\<exists>t. last_motion_time s = Some t \<and> 5 < time_now i - t))
               = alert_due (last_motion_time s) (time_now i)"
    using lg by (auto simp: log_ok_def alert_due_def split: option.splits)
  show ?thesis
  proof (cases "alert_due (last_motion_time s) (time_now i)")
    case True
    then show ?thesis
      unfolding due using loop_body_alert [OF run rd even ok det True]
      by (simp add: alerts_for_def)
  next
    case False
    then have "\<not> (True \<and> alert_due (last_motion_time s) (time_now i))" by simp
    from loop_body_quiet [OF run rd even ok det this] False show ?thesis
      unfolding due by simp
  qed
qed

lemma debounce_scenario:
  assumes det: "detect_motion cv (Some f0) (Some f1) = Inr (True, th1, cs1)"
      "detect_motion cv (Some f1) (Some f3) = Inr (True, th3, cs3)"
      "detect_motion cv (Some f3) (Some f5) = Inr (True, th5, cs5)"
    and rd: "read_result i1 = Some f1" "read_result i2 = Some f2" "read_result i3 = Some f3"
      "read_result i4 = Some f4" "read_result i5 = Some f5"
    and tm: "time_now i1 = t0" "time_now i3 = t0 + 1" "time_now i5 = t0 + 6"
  shows "motion_events (generate_frames cv (Capture True) (Some f0) [i1, i2, i3, i4, i5] init_state)
           = [new_event i5, new_event i1]
       \<and> threads (generate_frames cv (Capture True) (Some f0) [i1, i2, i3, i4, i5] init_state)
           = alerts_for i1 @ alerts_for i5"
proof -
  define s0 where "s0 = first_read (Some f0) (open_camera cv (Capture True) init_state)"
  define s1 where "s1 = loop_body cv i1 s0"
  define s2 where "s2 = loop_body cv i2 s1"
  define s3 where "s3 = loop_body cv i3 s2"
  define s4 where "s4 = loop_body cv i4 s3"
  define s5 where "s5 = loop_body cv i5 s4"
  have inv0: "refs_ok s0" "log_ok s0"
    using invariants_start [of "Some f0" cv "Capture True"] by (simp_all add: s0_def)
  have inv1: "refs_ok s1" "log_ok s1"
    using inv0 by (simp_all add: s1_def refs_ok_loop_body log_ok_loop_body)
  have inv2: "refs_ok s2" "log_ok s2"
    using inv1 by (simp_all add: s2_def refs_ok_loop_body log_ok_loop_body)
  have inv3: "refs_ok s3" "log_ok s3"
    using inv2 by (simp_all add: s3_def refs_ok_loop_body log_ok_loop_body)
  have inv4: "refs_ok s4" "log_ok s4"
    using inv3 by (simp_all add: s4_def refs_ok_loop_body log_ok_loop_body)
  have v0: "status s0 = Running" "frame_count s0 = 0" "map_option (heap s0) (prev_frame s0) = Some f0"
    "last_motion_time s0 = None" "motion_events s0 = []" "threads s0 = []"
    unfolding s0_def start_ok by (simp_all add: init_state_def)
  have v1: "status s1 = Running" "frame_count s1 = 1" "map_option (heap s1) (prev_frame s1) = Some f1"
    "last_motion_time s1 = Some t0" "motion_events s1 = [new_event i1]" "threads s1 = alerts_for i1"
    using loop_body_alert [OF v0(1) rd(1) _ inv0(1), of cv th1 cs1] v0 det(1) tm
    by (simp_all add: s1_def alert_due_def alerts_for_def)
  have v2: "status s2 = Running" "frame_count s2 = 2" "map_option (heap s2) (prev_frame s2) = Some f1"
    "last_motion_time s2 = Some t0" "motion_events s2 = [new_event i1]" "threads s2 = alerts_for i1"
    using loop_body_skip [OF v1(1) rd(2), of cv] v1 prev_after_read [OF inv1(1), of f2]
    by (simp_all add: s2_def)
  have v3: "status s3 = Running" "frame_count s3 = 3" "map_option (heap s3) (prev_frame s3) = Some f3"
    "last_motion_time s3 = Some t0" "motion_events s3 = [new_event i1]" "threads s3 = alerts_for i1"
    using loop_body_quiet [OF v2(1) rd(3) _ inv2(1), of cv True th3 cs3] v2 det(2) tm
    by (simp_all add: s3_def alert_due_def)
  have v4: "status s4 = Running" "frame_count s4 = 4" "map_option (heap s4) (prev_frame s4) = Some f3"
    "last_motion_time s4 = Some t0" "motion_events s4 = [new_event i1]" "threads s4 = alerts_for i1"
    using loop_body_skip [OF v3(1) rd(4), of cv] v3 prev_after_read [OF inv3(1), of f4]
    by (simp_all add: s4_def)
  have v5: "motion_events s5 = [new_event i5, new_event i1]" "threads s5 = alerts_for i1 @ alerts_for i5"
    using loop_body_alert [OF v4(1) rd(5) _ inv4(1), of cv th5 cs5] v4 det(3) tm
    by (simp_all add: s5_def alert_due_def alerts_for_def)
  have "generate_frames cv (Capture True) (Some f0) [i1, i2, i3, i4, i5] init_state = s5"
    by (simp add: generate_frames_def s0_def s1_def s2_def s3_def s4_def s5_def)
  with v5 show ?thesis by simp
qed

section \<open>The debounce and the event log: the claims\<close>

lemma sample_start:
  "generate_frames cv (Capture True) (Some f0) [] init_state =
     init_state\<lparr>camera := Some True, status := Running,
       heap := (heap init_state)(0 := f0), next_ref := 1, prev_frame := Some 0\<rparr>"
  by (simp add: generate_frames_def start_ok)

lemma sample_positive:
  "positive_detection sample_cv (shot (Some light) t ok)
     (generate_frames sample_cv (Capture True) (Some dark) [] init_state)"
  unfolding sample_start
  by (simp add: positive_detection_def shot_def init_state_def detect_dark_light)

text \<open>
  C1. In every state the program reaches, an iteration with a positive detection creates
  an event (a new head of the log, its two alert threads, the alert time set to now)
  if and only if there is no event so far or more than 5 seconds have passed since the
  last alert time; otherwise the log, the threads, the alert time and the files stay as
  they are. With positive detections at t0, t0 + 1 and t0 + 6 on the first three
  processed frames, the log holds exactly the events of t0 and t0 + 6, newest first.
\<close>

theorem debounce_cooldown:
  assumes "s = generate_frames cv opn rd ins init_state"
  shows "(positive_detection cv i s \<longrightarrow>
           (if motion_events s = [] \<or> (\<exists>t. last_motion_time s = Some t \<and> 5 < time_now i - t)
            then motion_events (loop_body cv i s) = take 20 (new_event i # motion_events s)
                 \<and> threads (loop_body cv i s) = threads s @ alerts_for i
                 \<and> last_motion_time (loop_body cv i s) = Some (time_now i)
            else motion_events (loop_body cv i s) = motion_events s
                 \<and> threads (loop_body cv i s) = threads s
                 \<and> last_motion_time (loop_body cv i s) = last_motion_time s
                 \<and> files (loop_body cv i s) = files s))
       \<and> (detect_motion cv (Some f0) (Some f1) = Inr (True, th1, cs1)
          \<and> detect_motion cv (Some f1) (Some f3) = Inr (True, th3, cs3)
          \<and> detect_motion cv (Some f3) (Some f5) = Inr (True, th5, cs5)
          \<and> read_result i1 = Some f1 \<and> read_result i2 = Some f2 \<and> read_result i3 = Some f3
          \<and> read_result i4 = Some f4 \<and> read_result i5 = Some f5
          \<and> time_now i1 = t0 \<and> time_now i3 = t0 + 1 \<and> time_now i5 = t0 + 6 \<longrightarrow>
          motion_events (generate_frames cv (Capture True) (Some f0) [i1, i2, i3, i4, i5] init_state)
            = [new_event i5, new_event i1]
          \<and> threads (generate_frames cv (Capture True) (Some f0) [i1, i2, i3, i4, i5] init_state)
            = alerts_for i1 @ alerts_for i5)"
  using debounce_step [OF assms] debounce_scenario by blast

theorem debounce_cooldown_witness:
  "positive_detection sample_cv (shot (Some light) 0 True)
     (generate_frames sample_cv (Capture True) (Some dark) [] init_state)
   \<and> motion_events (loop_body sample_cv (shot (Some light) 0 True)
        (generate_frames sample_cv (Capture True) (Some dark) [] init_state))
      = [new_event (shot (Some light) 0 True)]
   \<and> detect_motion sample_cv (Some dark) (Some light)
      = Inr (True, replicate 100 (replicate 100 255), [[(0, 0), (0, 99), (99, 99), (99, 0)]])
   \<and> detect_motion sample_cv (Some light) (Some dark)
      = Inr (True, replicate 100 (replicate 100 255), [[(0, 0), (0, 99), (99, 99), (99, 0)]])
   \<and> read_result (shot (Some light) 100 True) = Some light
   \<and> read_result (shot (Some light) (201 / 2) True) = Some light
   \<and> read_result (shot (Some dark) 101 True) = Some dark
   \<and> read_result (shot (Some dark) 103 True) = Some dark
   \<and> read_result (shot (Some light) 106 True) = Some light
   \<and> time_now (shot (Some light) 100 True) = 100
   \<and> time_now (shot (Some dark) 101 True) = 100 + 1
   \<and> time_now (shot (Some light) 106 True) = 100 + 6
   \<and> motion_events (generate_frames sample_cv (Capture True) (Some dark)
        [shot (Some light) 100 True, shot (Some light) (201 / 2) True, shot (Some dark) 101 True,
         shot (Some dark) 103 True, shot (Some light) 106 True] init_state)
      = [new_event (shot (Some light) 106 True), new_event (shot (Some light) 100 True)]"
proof -
  let ?s = "generate_frames sample_cv (Capture True) (Some dark) [] init_state"
  let ?i = "shot (Some light) 0 True"
  let ?m = "replicate 100 (replicate 100 (255::8 word))"
  let ?c = "[[(0, 0), (0, 99), (99, 99), (99, 0)]] :: contour list"
  note inst = debounce_cooldown [OF refl, where cv = sample_cv and i = ?i and opn = "Capture True"
      and rd = "Some dark" and ins = "[]" and ?f0.0 = dark and ?f1.0 = light and ?f3.0 = dark
      and ?f5.0 = light and ?th1.0 = ?m and ?th3.0 = ?m and ?th5.0 = ?m and ?cs1.0 = ?c
      and ?cs3.0 = ?c and ?cs5.0 = ?c and ?f2.0 = light and ?f4.0 = dark and ?t0.0 = 100
      and ?i1.0 = "shot (Some light) 100 True" and ?i2.0 = "shot (Some light) (201 / 2) True"
      and ?i3.0 = "shot (Some dark) 101 True" and ?i4.0 = "shot (Some dark) 103 True"
      and ?i5.0 = "shot (Some light) 106 True"]
  have empty: "motion_events ?s = []"
    unfolding sample_start by (simp add: init_state_def)
  have "motion_events (loop_body sample_cv ?i ?s) = take 20 (new_event ?i # motion_events ?s)"
    using inst sample_positive [of 0 True] empty by simp
  then have first: "motion_events (loop_body sample_cv ?i ?s) = [new_event ?i]"
    by (simp add: empty)
  have "motion_events (generate_frames sample_cv (Capture True) (Some dark)
        [shot (Some light) 100 True, shot (Some light) (201 / 2) True, shot (Some dark) 101 True,
         shot (Some dark) 103 True, shot (Some light) 106 True] init_state)
      = [new_event (shot (Some light) 106 True), new_event (shot (Some light) 100 True)]"
    using inst detect_dark_light detect_light_dark by (simp add: shot_def)
  with first sample_positive [of 0 True] detect_dark_light detect_light_dark show ?thesis
    by (simp add: shot_def)
qed

lemma new_event_minute: "new_event (minute k f) = new_event (minute k dark)"
  by (simp add: new_event_def minute_def)

lemma feed_state:
  fixes n :: nat
  defines "s \<equiv> generate_frames sample_cv (Capture True) (Some dark) (feed n) init_state"
  shows "status s = Running \<and> frame_count s = 2 * int n
       \<and> map_option (heap s) (prev_frame s) = Some (if even n then dark else light)
       \<and> last_motion_time s = (if n = 0 then None else Some (60 * real (n - 1)))
       \<and> motion_events s = take 20 (map (\<lambda>k. new_event (minute k dark)) (rev [0 ..< n]))"
  unfolding s_def
proof (induction n)
  case 0
  show ?case
    unfolding feed.simps sample_start by (simp add: init_state_def)
next
  case (Suc n)
  let ?s = "generate_frames sample_cv (Capture True) (Some dark) (feed n) init_state"
  let ?f = "if even n then light else dark"
  let ?i = "minute n ?f"
  let ?j = "minute n dark"
  let ?m = "replicate 100 (replicate 100 (255::8 word))"
  let ?c = "[[(0, 0), (0, 99), (99, 99), (99, 0)]] :: contour list"
  from Suc have run: "status ?s = Running" and cnt: "frame_count ?s = 2 * int n"
    and prev: "map_option (heap ?s) (prev_frame ?s) = Some (if even n then dark else light)"
    and last: "last_motion_time ?s = (if n = 0 then None else Some (60 * real (n - 1)))"
    and log: "motion_events ?s = take 20 (map (\<lambda>k. new_event (minute k dark)) (rev [0 ..< n]))"
    by simp_all
  have ok: "refs_ok ?s"
    using invariants_run by blast
  have even: "frame_count ?s mod 2 = 0"
    using cnt by simp
  have rd: "read_result ?i = Some ?f"
    by (simp add: minute_def)
  have det: "detect_motion sample_cv (map_option (heap ?s) (prev_frame ?s)) (Some ?f) = Inr (True, ?m, ?c)"
    unfolding prev by (simp add: detect_dark_light detect_light_dark)
  have due: "alert_due (last_motion_time ?s) (time_now ?i)"
    unfolding last by (cases n) (simp_all add: alert_due_def minute_def)
  let ?s1 = "loop_body sample_cv ?i ?s"
  have s1: "status ?s1 = Running" "frame_count ?s1 = 2 * int n + 1"
    "map_option (heap ?s1) (prev_frame ?s1) = Some ?f"
    "last_motion_time ?s1 = Some (60 * real n)"
    "motion_events ?s1 = take 20 (new_event ?i # motion_events ?s)"
    unfolding loop_body_alert [OF run rd even ok det due]
    using run by (simp_all add: cnt minute_def)
  have ok1: "refs_ok ?s1"
    using ok by (rule refs_ok_loop_body)
  have odd: "frame_count ?s1 mod 2 \<noteq> 0"
    using s1(2) by presburger
  have rd': "read_result ?j = Some dark"
    by (simp add: minute_def)
  let ?s2 = "loop_body sample_cv ?j ?s1"
  have s2: "status ?s2 = Running" "frame_count ?s2 = 2 * int n + 2"
    "map_option (heap ?s2) (prev_frame ?s2) = Some ?f"
    "last_motion_time ?s2 = Some (60 * real n)"
    "motion_events ?s2 = take 20 (new_event ?i # motion_events ?s)"
    unfolding loop_body_skip [OF s1(1) rd' odd]
    using s1 prev_after_read [OF ok1, of dark] by simp_all
  have run2: "generate_frames sample_cv (Capture True) (Some dark) (feed (Suc n)) init_state = ?s2"
    by (simp add: generate_frames_def)
  have events: "take 20 (new_event ?i # motion_events ?s)
        = take 20 (map (\<lambda>k. new_event (minute k dark)) (rev [0 ..< Suc n]))"
    unfolding log by (simp add: new_event_minute [of n ?f])
  show ?case
    unfolding run2 using s2 events by auto
qed

lemma feed_log_20:
  "motion_events (generate_frames sample_cv (Capture True) (Some dark) (feed 20) init_state)
     = map (\<lambda>k. new_event (minute k dark)) [19, 18, 17, 16, 15, 14, 13, 12, 11, 10, 9, 8, 7, 6, 5, 4, 3, 2, 1, 0]"
proof -
  have "rev [0 ..< 20] = [19, 18, 17, 16, 15, 14, 13, 12, 11, 10, 9, 8, 7, 6, 5, 4, 3, 2, 1, 0::nat]"
    by code_simp
  with feed_state [of 20] show ?thesis by simp
qed

text \<open>
  C2. Whatever the camera delivers, the event log never holds more than 20 events. An
  iteration with a positive detection that is due puts its new event at the head of
  the log, and it drops the last (oldest) event exactly when the log was full; every
  other iteration leaves the log as it is.
\<close>

theorem event_log_capped:
  assumes "s = generate_frames cv opn rd ins init_state"
  shows "length (motion_events s) \<le> 20
       \<and> (if positive_detection cv i s \<and> alert_due (last_motion_time s) (time_now i)
          then motion_events (loop_body cv i s)
                 = new_event i # (if length (motion_events s) < 20 then motion_events s
                                  else butlast (motion_events s))
          else motion_events (loop_body cv i s) = motion_events s)"
proof -
  have ok: "refs_ok s" and lg: "log_ok s"
    using invariants_run assms by simp_all
  then have len: "length (motion_events s) \<le> 20"
    by (simp add: log_ok_def)
  have cap: "take 20 (e # evs) = e # (if length evs < 20 then evs else butlast evs)"
    if "length evs \<le> 20" for e :: motion_event and evs
    using that by (cases "length evs < 20") (simp_all add: butlast_conv_take)
  from ok have "if positive_detection cv i s \<and> alert_due (last_motion_time s) (time_now i)
          then motion_events (loop_body cv i s) = take 20 (new_event i # motion_events s)
          else motion_events (loop_body cv i s) = motion_events s"
  proof (cases rule: loop_body_cases [where i = i and cv = cv])
    case idle
    then show ?thesis by (simp add: loop_body_idle positive_detection_def)
  next
    case break
    then show ?thesis by (simp add: loop_body_break positive_detection_def)
  next
    case (skip f)
    then show ?thesis by (simp add: loop_body_skip positive_detection_def)
  next
    case (crash f e)
    with ok show ?thesis by (simp add: loop_body_crash positive_detection_def)
  next
    case (quiet f m th cs)
    with ok show ?thesis by (auto simp: loop_body_quiet positive_detection_def)
  next
    case (alert f th cs)
    with ok show ?thesis by (simp add: loop_body_alert positive_detection_def)
  qed
  with len cap [OF len] show ?thesis by simp
qed

theorem event_log_capped_witness:
  "length (motion_events (generate_frames sample_cv (Capture True) (Some dark) (feed 20) init_state)) = 20
   \<and> positive_detection sample_cv (minute 20 light)
        (generate_frames sample_cv (Capture True) (Some dark) (feed 20) init_state)
   \<and> alert_due (last_motion_time (generate_frames sample_cv (Capture True) (Some dark) (feed 20) init_state))
        (time_now (minute 20 light))
   \<and> motion_events (loop_body sample_cv (minute 20 light)
        (generate_frames sample_cv (Capture True) (Some dark) (feed 20) init_state))
      = new_event (minute 20 light)
        # butlast (motion_events (generate_frames sample_cv (Capture True) (Some dark) (feed 20) init_state))
   \<and> length (motion_events (loop_body sample_cv (minute 20 light)
        (generate_frames sample_cv (Capture True) (Some dark) (feed 20) init_state))) = 20
   \<and> last (motion_events (generate_frames sample_cv (Capture True) (Some dark) (feed 20) init_state))
      = new_event (minute 0 dark)
   \<and> last (motion_events (loop_body sample_cv (minute 20 light)
        (generate_frames sample_cv (Capture True) (Some dark) (feed 20) init_state)))
      = new_event (minute 1 dark)
   \<and> new_event (minute 0 dark) \<noteq> new_event (minute 1 dark)"
proof -
  let ?s = "generate_frames sample_cv (Capture True) (Some dark) (feed 20) init_state"
  let ?i = "minute 20 light"
  note inst = event_log_capped [OF refl, where cv = sample_cv and opn = "Capture True"
      and rd = "Some dark" and ins = "feed 20" and i = ?i]
  have run: "status ?s = Running" and cnt: "frame_count ?s = 40"
    and prev: "map_option (heap ?s) (prev_frame ?s) = Some dark"
    and last: "last_motion_time ?s = Some 1140"
    using feed_state [of 20] by simp_all
  have len: "length (motion_events ?s) = 20"
    by (simp add: feed_log_20)
  have pos: "positive_detection sample_cv ?i ?s"
    by (simp add: positive_detection_def run cnt prev minute_def detect_dark_light)
  have due: "alert_due (last_motion_time ?s) (time_now ?i)"
    by (simp add: alert_due_def last minute_def)
  have step: "motion_events (loop_body sample_cv ?i ?s) = new_event ?i # butlast (motion_events ?s)"
    using inst pos due len by simp
  have len': "length (motion_events (loop_body sample_cv ?i ?s)) = 20"
    unfolding step by (simp add: len)
  have old: "last (motion_events ?s) = new_event (minute 0 dark)"
    by (simp add: feed_log_20)
  have new: "last (motion_events (loop_body sample_cv ?i ?s)) = new_event (minute 1 dark)"
    unfolding step by (simp add: feed_log_20)
  have diff: "new_event (minute 0 dark) \<noteq> new_event (minute 1 dark)"
    by (simp add: new_event_def minute_def two_digits_def Let_def)
  from len pos due step len' old new diff show ?thesis by blast
qed

section \<open>The published frame: lemmas\<close>

lemma generate_frames_snoc:
  "generate_frames cv opn rd (ins @ [i]) s = loop_body cv i (generate_frames cv opn rd ins s)"
  by (simp add: generate_frames_def)

lemma generate_frames_append:
  "generate_frames cv opn rd (ins @ js) s = fold (loop_body cv) js (generate_frames cv opn rd ins s)"
  by (simp add: generate_frames_def)

lemma latest_quiet_step:
  assumes ok: "refs_ok s" and quiet: "\<not> publishes cv i s"
  shows "latest (loop_body cv i s) = latest s"
  using ok
proof (cases rule: loop_body_cases [where i = i and cv = cv])
  case idle
  then show ?thesis by (simp add: loop_body_idle)
next
  case break
  then show ?thesis by (simp add: loop_body_break latest_def)
next
  case (skip f)
  with ok show ?thesis
    by (auto simp: loop_body_skip latest_def refs_ok_def split: option.splits)
next
  case (crash f e)
  with ok show ?thesis
    by (auto simp: loop_body_crash latest_def refs_ok_def split: option.splits)
next
  case (quiet f m th cs)
  with assms(2) show ?thesis by (simp add: publishes_def)
next
  case (alert f th cs)
  with assms(2) show ?thesis by (simp add: publishes_def)
qed

lemma latest_quiet_run:
  "refs_ok s \<Longrightarrow> none_publishes cv js s \<Longrightarrow> latest (fold (loop_body cv) js s) = latest s"
  by (induction js arbitrary: s) (simp_all add: latest_quiet_step refs_ok_loop_body)

lemma latest_publish:
  assumes ok: "refs_ok s" and pub: "publishes cv i s" and rd: "read_result i = Some f"
    and det: "detect_motion cv (map_option (heap s) (prev_frame s)) (Some f) = Inr (m, th, cs)"
  shows "latest (loop_body cv i s) = Some (annotate cv i cs f)"
proof -
  from pub have run: "status s = Running" and even: "frame_count s mod 2 = 0"
    by (simp_all add: publishes_def)
  show ?thesis
  proof (cases "m \<and> alert_due (last_motion_time s) (time_now i)")
    case True
    then have det': "detect_motion cv (map_option (heap s) (prev_frame s)) (Some f) = Inr (True, th, cs)"
      and due: "alert_due (last_motion_time s) (time_now i)"
      using det by simp_all
    show ?thesis
      by (simp add: loop_body_alert [OF run rd even ok det' due] latest_def)
  next
    case False
    show ?thesis
      by (simp add: loop_body_quiet [OF run rd even ok det False] latest_def)
  qed
qed

lemma video_feed_latest:
  "video_feed_pass cv s = (case latest s of None \<Rightarrow> None | Some F \<Rightarrow> chunk_of cv F)"
  by (simp add: video_feed_pass_def latest_def chunk_of_def split: option.splits prod.splits)

lemma sample_first:
  fixes t :: real and ok :: bool
  defines "s1 \<equiv> loop_body sample_cv (shot (Some light) t ok)
     (generate_frames sample_cv (Capture True) (Some dark) [] init_state)"
  shows "status s1 = Running" and "frame_count s1 = 1"
    and "motion_events s1 = [new_event (shot (Some light) t ok)]"
    and "files s1 = (if ok then [path (new_event (shot (Some light) t ok)) \<mapsto> light] else Map.empty)"
    and "stdout s1 = []" and "threads s1 = alerts_for (shot (Some light) t ok)"
    and "last_motion_time s1 = Some t"
    and "latest s1 = Some (annotate sample_cv (shot (Some light) t ok) [[(0, 0), (0, 99), (99, 99), (99, 0)]] light)"
proof -
  let ?s = "generate_frames sample_cv (Capture True) (Some dark) [] init_state"
  let ?i = "shot (Some light) t ok"
  have ok: "refs_ok ?s"
    using invariants_run by blast
  have run: "status ?s = Running" and even: "frame_count ?s mod 2 = 0"
    and due: "alert_due (last_motion_time ?s) (time_now ?i)"
    and det: "detect_motion sample_cv (map_option (heap ?s) (prev_frame ?s)) (Some light)
                = Inr (True, replicate 100 (replicate 100 255), [[(0, 0), (0, 99), (99, 99), (99, 0)]])"
    unfolding sample_start by (simp_all add: init_state_def alert_due_def detect_dark_light)
  have rd: "read_result ?i = Some light"
    by (simp add: shot_def)
  show "status s1 = Running" and "frame_count s1 = 1"
    and "motion_events s1 = [new_event (shot (Some light) t ok)]"
    and "files s1 = (if ok then [path (new_event (shot (Some light) t ok)) \<mapsto> light] else Map.empty)"
    and "stdout s1 = []" and "threads s1 = alerts_for (shot (Some light) t ok)"
    and "last_motion_time s1 = Some t"
    and "latest s1 = Some (annotate sample_cv (shot (Some light) t ok) [[(0, 0), (0, 99), (99, 99), (99, 0)]] light)"
    unfolding s1_def loop_body_alert [OF run rd even ok det due]
    unfolding sample_start
    by (simp_all add: init_state_def alerts_for_def shot_def latest_def)
qed

section \<open>The published frame: the claim\<close>

text \<open>
  C5. Before anything is published a reader sees \<open>None\<close>: in the module's initial state,
  and after any run with an opened camera in which no iteration publishes. Once an
  iteration has published its annotated frame, a reader sees exactly that frame for as
  long as no later iteration publishes. What \<open>generate_video_feed\<close> yields in one pass is
  determined by what the reader sees: nothing for \<open>None\<close>, the encoded frame otherwise.
\<close>

theorem latest_frame_published:
  assumes "s = generate_frames cv opn rd ins init_state"
  shows "latest init_state = None
       \<and> (none_publishes cv js (generate_frames cv (Capture True) rd [] init_state) \<longrightarrow>
            latest (generate_frames cv (Capture True) rd js init_state) = None)
       \<and> (publishes cv i s \<and> read_result i = Some f
            \<and> detect_motion cv (map_option (heap s) (prev_frame s)) (Some f) = Inr (m, th, cs)
            \<and> none_publishes cv js (loop_body cv i s) \<longrightarrow>
            latest (fold (loop_body cv) js (loop_body cv i s)) = Some (annotate cv i cs f))
       \<and> video_feed_pass cv s = (case latest s of None \<Rightarrow> None | Some F \<Rightarrow> chunk_of cv F)"
proof -
  have ok: "refs_ok s"
    using invariants_run assms by simp
  have a: "latest init_state = None"
    by (simp add: latest_def init_state_def)
  have b: "latest (generate_frames cv (Capture True) rd js init_state) = None"
    if "none_publishes cv js (generate_frames cv (Capture True) rd [] init_state)"
  proof -
    let ?s0 = "generate_frames cv (Capture True) rd [] init_state"
    have "refs_ok ?s0" using invariants_run by blast
    from latest_quiet_run [OF this that]
    have "latest (generate_frames cv (Capture True) rd ([] @ js) init_state) = latest ?s0"
      by (simp only: generate_frames_append)
    moreover have "latest ?s0 = None"
      by (cases rd)
         (simp_all add: generate_frames_def first_read_def open_camera_def new_array_def
            latest_def init_state_def)
    ultimately show ?thesis by simp
  qed
  have c: "latest (fold (loop_body cv) js (loop_body cv i s)) = Some (annotate cv i cs f)"
    if "publishes cv i s" "read_result i = Some f"
      "detect_motion cv (map_option (heap s) (prev_frame s)) (Some f) = Inr (m, th, cs)"
      "none_publishes cv js (loop_body cv i s)"
    using latest_quiet_run [OF refs_ok_loop_body [OF ok] that(4)]
      latest_publish [OF ok that(1,2,3)] by simp
  from a b c video_feed_latest [of cv s] show ?thesis by blast
qed

theorem latest_frame_published_witness:
  "none_publishes sample_cv [shot None 0 True]
     (generate_frames sample_cv (Capture True) (Some dark) [] init_state)
   \<and> latest (generate_frames sample_cv (Capture True) (Some dark) [shot None 0 True] init_state) = None
   \<and> publishes sample_cv (shot (Some light) 0 True)
        (generate_frames sample_cv (Capture True) (Some dark) [] init_state)
   \<and> none_publishes sample_cv [shot (Some dark) 1 True]
        (loop_body sample_cv (shot (Some light) 0 True)
           (generate_frames sample_cv (Capture True) (Some dark) [] init_state))
   \<and> latest (fold (loop_body sample_cv) [shot (Some dark) 1 True]
        (loop_body sample_cv (shot (Some light) 0 True)
           (generate_frames sample_cv (Capture True) (Some dark) [] init_state)))
      = Some (annotate sample_cv (shot (Some light) 0 True) [[(0, 0), (0, 99), (99, 99), (99, 0)]] light)"
proof -
  let ?s = "generate_frames sample_cv (Capture True) (Some dark) [] init_state"
  let ?i = "shot (Some light) 0 True"
  let ?m = "replicate 100 (replicate 100 (255::8 word))"
  let ?c = "[[(0, 0), (0, 99), (99, 99), (99, 0)]] :: contour list"
  note inst = latest_frame_published [OF refl, where cv = sample_cv and opn = "Capture True"
      and rd = "Some dark" and ins = "[]" and i = ?i and f = light and m = True and th = ?m
      and cs = ?c]
  have h1: "none_publishes sample_cv [shot None 0 True] ?s"
    by (simp add: publishes_def shot_def)
  have h2: "publishes sample_cv ?i ?s"
    unfolding sample_start
    by (simp add: publishes_def shot_def init_state_def detect_dark_light)
  have h3: "read_result ?i = Some light"
    by (simp add: shot_def)
  have h4: "detect_motion sample_cv (map_option (heap ?s) (prev_frame ?s)) (Some light) = Inr (True, ?m, ?c)"
    unfolding sample_start by (simp add: init_state_def detect_dark_light)
  have h5: "none_publishes sample_cv [shot (Some dark) 1 True] (loop_body sample_cv ?i ?s)"
    by (simp add: publishes_def sample_first)
  from inst [where js = "[shot None 0 True]"] h1
  have c1: "latest (generate_frames sample_cv (Capture True) (Some dark) [shot None 0 True] init_state) = None"
    by blast
  from inst [where js = "[shot (Some dark) 1 True]"] h2 h3 h4 h5
  have c2: "latest (fold (loop_body sample_cv) [shot (Some dark) 1 True] (loop_body sample_cv ?i ?s))
      = Some (annotate sample_cv ?i ?c light)"
    by blast
  from h1 c1 h2 h5 c2 show ?thesis by blast
qed

section \<open>The snapshot: the claims\<close>

text \<open>
  C8. In every iteration that creates an event, the array \<open>frame\<close> read from the camera
  still holds the raw frame after the overlay has been drawn (the drawing is done on a
  copy), the only file written is the event's snapshot and it holds the raw frame, and
  the frame handed to the publisher is the annotated copy.
\<close>

theorem snapshot_is_raw_frame:
  assumes "s = generate_frames cv opn rd ins init_state"
    and "status s = Running" and "frame_count s mod 2 = 0" and "read_result i = Some f"
    and "detect_motion cv (map_option (heap s) (prev_frame s)) (Some f) = Inr (True, th, cs)"
    and "alert_due (last_motion_time s) (time_now i)"
  shows "motion_events (loop_body cv i s) = take 20 (new_event i # motion_events s)
       \<and> heap (loop_body cv i s) (next_ref s) = f
       \<and> files (loop_body cv i s)
           = (if imwrite_ok i then (files s)(path (new_event i) \<mapsto> f) else files s)
       \<and> latest (loop_body cv i s) = Some (annotate cv i cs f)
       \<and> annotate cv i cs f
           = putText cv (drawContours cv f cs (- 1) (0, 255, 0) 2) (now_display i)
               (10, int (length f) - 10) FONT_HERSHEY_SIMPLEX 0.5 (0, 0, 255) 1"
proof -
  have ok: "refs_ok s"
    using invariants_run assms(1) by simp
  show ?thesis
    unfolding loop_body_alert [OF assms(2) assms(4) assms(3) ok assms(5) assms(6)]
    by (simp add: latest_def annotate_def)
qed

theorem snapshot_is_raw_frame_witness:
  "status (generate_frames sample_cv (Capture True) (Some dark) [] init_state) = Running
   \<and> frame_count (generate_frames sample_cv (Capture True) (Some dark) [] init_state) mod 2 = 0
   \<and> read_result (shot (Some light) 0 True) = Some light
   \<and> detect_motion sample_cv
        (map_option (heap (generate_frames sample_cv (Capture True) (Some dark) [] init_state))
           (prev_frame (generate_frames sample_cv (Capture True) (Some dark) [] init_state)))
        (Some light)
      = Inr (True, replicate 100 (replicate 100 255), [[(0, 0), (0, 99), (99, 99), (99, 0)]])
   \<and> alert_due (last_motion_time (generate_frames sample_cv (Capture True) (Some dark) [] init_state))
        (time_now (shot (Some light) 0 True))
   \<and> files (loop_body sample_cv (shot (Some light) 0 True)
        (generate_frames sample_cv (Capture True) (Some dark) [] init_state))
        (path (new_event (shot (Some light) 0 True))) = Some light
   \<and> latest (loop_body sample_cv (shot (Some light) 0 True)
        (generate_frames sample_cv (Capture True) (Some dark) [] init_state))
      = Some (annotate sample_cv (shot (Some light) 0 True) [[(0, 0), (0, 99), (99, 99), (99, 0)]] light)"
proof -
  let ?s = "generate_frames sample_cv (Capture True) (Some dark) [] init_state"
  let ?i = "shot (Some light) 0 True"
  let ?m = "replicate 100 (replicate 100 (255::8 word))"
  let ?c = "[[(0, 0), (0, 99), (99, 99), (99, 0)]] :: contour list"
  have run: "status ?s = Running" and even: "frame_count ?s mod 2 = 0"
    and due: "alert_due (last_motion_time ?s) (time_now ?i)"
    and det: "detect_motion sample_cv (map_option (heap ?s) (prev_frame ?s)) (Some light) = Inr (True, ?m, ?c)"
    and none: "files ?s = Map.empty"
    unfolding sample_start by (simp_all add: init_state_def alert_due_def detect_dark_light)
  have rd: "read_result ?i = Some light" and wr: "imwrite_ok ?i"
    by (simp_all add: shot_def)
  from snapshot_is_raw_frame [OF refl run even rd det due] wr none
  have "files (loop_body sample_cv ?i ?s) (path (new_event ?i)) = Some light"
    and "latest (loop_body sample_cv ?i ?s) = Some (annotate sample_cv ?i ?c light)"
    by simp_all
  with run even rd det due show ?thesis by blast
qed

text \<open>
  C6, as stated, fails: when \<open>cv2.imwrite\<close> returns false the event is recorded all the
  same, and with the module's initial settings nothing is printed. Here the first
  processed frame shows motion and its snapshot cannot be written: the log holds the
  event, no file exists under the event's path, the loop has printed nothing, and the
  two alert threads it started return without printing.
\<close>

theorem snapshot_failure_counterexample:
  "motion_events (generate_frames sample_cv (Capture True) (Some dark) [shot (Some light) 0 False] init_state)
     = [new_event (shot (Some light) 0 False)]
   \<and> files (generate_frames sample_cv (Capture True) (Some dark) [shot (Some light) 0 False] init_state)
       (path (new_event (shot (Some light) 0 False))) = None
   \<and> stdout (generate_frames sample_cv (Capture True) (Some dark) [shot (Some light) 0 False] init_state) = []
   \<and> threads (generate_frames sample_cv (Capture True) (Some dark) [shot (Some light) 0 False] init_state)
       = alerts_for (shot (Some light) 0 False)
   \<and> map (run_thread init_settings
             (files (generate_frames sample_cv (Capture True) (Some dark) [shot (Some light) 0 False] init_state))
             calm_env)
         (alerts_for (shot (Some light) 0 False))
       = [(False, []), (False, [])]"
proof -
  have run: "generate_frames sample_cv (Capture True) (Some dark) [shot (Some light) 0 False] init_state
      = loop_body sample_cv (shot (Some light) 0 False)
          (generate_frames sample_cv (Capture True) (Some dark) [] init_state)"
    using generate_frames_snoc [of sample_cv "Capture True" "Some dark" "[]"] by simp
  have quiet: "map (run_thread init_settings fs calm_env) (alerts_for i) = [(False, []), (False, [])]"
    for fs i
    by (simp add: alerts_for_def run_thread_def send_email_alert_def send_sms_alert_def init_settings_def)
  show ?thesis
    unfolding run using sample_first [of 0 False] quiet by simp
qed

text \<open>
  C6, amended. If the snapshot write fails (\<open>cv2.imwrite\<close> returns false) while an event
  is created, the loop does not crash and goes on to the next iteration: it is still
  running, the frame counter is advanced, and the state is the one a successful write
  would have left, except that no file was written. The event is still recorded at the
  head of the log and its two alert threads are started, and the loop itself prints
  nothing. The failure is reported only by the email thread, and only when email alerts
  are enabled: if no older file has the snapshot's name, the thread cannot open the
  snapshot, prints its "Email error" line and returns false; with email alerts disabled
  it prints nothing. The SMS thread never opens the file and prints at most the error
  of the SMS gateway.
\<close>

theorem snapshot_failure_ignored:
  assumes "s = generate_frames cv opn rd ins init_state"
    and "positive_detection cv i s" and "alert_due (last_motion_time s) (time_now i)"
    and "\<not> imwrite_ok i"
  shows "status (loop_body cv i s) = Running
       \<and> frame_count (loop_body cv i s) = frame_count s + 1
       \<and> loop_body cv i s = (loop_body cv (i\<lparr>imwrite_ok := True\<rparr>) s)\<lparr>files := files s\<rparr>
       \<and> files (loop_body cv i s) = files s
       \<and> motion_events (loop_body cv i s) = take 20 (new_event i # motion_events s)
       \<and> threads (loop_body cv i s) = threads s @ alerts_for i
       \<and> stdout (loop_body cv i s) = stdout s
       \<and> alerts_for i = [Email_alert (path (new_event i)),
            Sms_alert (''http://yourdomain.com/static/captures/'' @ image_name (new_event i))]
       \<and> (files s (path (new_event i)) = None \<longrightarrow>
            run_thread st (files (loop_body cv i s)) env (Email_alert (path (new_event i)))
              = (False, if email_enabled st
                        then [''Email error: '' @ open_error env (path (new_event i))] else []))
       \<and> run_thread st (files (loop_body cv i s)) env
            (Sms_alert (''http://yourdomain.com/static/captures/'' @ image_name (new_event i)))
           = (if \<not> twilio_enabled st then (False, [])
              else case twilio_error env of None \<Rightarrow> (True, [])
                   | Some e \<Rightarrow> (False, [''SMS error: '' @ e]))"
proof -
  let ?j = "i\<lparr>imwrite_ok := True\<rparr>"
  have ok: "refs_ok s"
    using invariants_run assms(1) by simp
  from assms(2) obtain f th cs where run: "status s = Running" and even: "frame_count s mod 2 = 0"
    and rd: "read_result i = Some f"
    and det: "detect_motion cv (map_option (heap s) (prev_frame s)) (Some f) = Inr (True, th, cs)"
    by (auto simp: positive_detection_def split: option.splits sum.splits)
  have rd': "read_result ?j = Some f" and due': "alert_due (last_motion_time s) (time_now ?j)"
    using rd assms(3) by simp_all
  have same: "new_event ?j = new_event i" "annotate cv ?j cs f = annotate cv i cs f"
    by (simp_all add: new_event_def annotate_def)
  have loop: "status (loop_body cv i s) = Running
       \<and> frame_count (loop_body cv i s) = frame_count s + 1
       \<and> loop_body cv i s = (loop_body cv ?j s)\<lparr>files := files s\<rparr>
       \<and> files (loop_body cv i s) = files s
       \<and> motion_events (loop_body cv i s) = take 20 (new_event i # motion_events s)
       \<and> threads (loop_body cv i s) = threads s @ alerts_for i
       \<and> stdout (loop_body cv i s) = stdout s"
    unfolding loop_body_alert [OF run rd even ok det assms(3)]
      loop_body_alert [OF run rd' even ok det due'] same
    using assms(4) run by (simp add: alerts_for_def)
  then have fs: "files (loop_body cv i s) = files s"
    by blast
  have mail: "run_thread st (files (loop_body cv i s)) env (Email_alert (path (new_event i)))
              = (False, if email_enabled st
                        then [''Email error: '' @ open_error env (path (new_event i))] else [])"
    if "files s (path (new_event i)) = None"
    unfolding fs using that by (simp add: run_thread_def send_email_alert_def)
  have sms: "run_thread st (files (loop_body cv i s)) env
            (Sms_alert (''http://yourdomain.com/static/captures/'' @ image_name (new_event i)))
           = (if \<not> twilio_enabled st then (False, [])
              else case twilio_error env of None \<Rightarrow> (True, [])
                   | Some e \<Rightarrow> (False, [''SMS error: '' @ e]))"
    by (simp add: run_thread_def send_sms_alert_def)
  have alerts: "alerts_for i = [Email_alert (path (new_event i)),
            Sms_alert (''http://yourdomain.com/static/captures/'' @ image_name (new_event i))]"
    by (simp add: alerts_for_def)
  from loop alerts mail sms show ?thesis
    by blast
qed

theorem snapshot_failure_ignored_witness:
  "positive_detection sample_cv (shot (Some light) 0 False)
     (generate_frames sample_cv (Capture True) (Some dark) [] init_state)
   \<and> alert_due (last_motion_time (generate_frames sample_cv (Capture True) (Some dark) [] init_state))
        (time_now (shot (Some light) 0 False))
   \<and> \<not> imwrite_ok (shot (Some light) 0 False)
   \<and> files (generate_frames sample_cv (Capture True) (Some dark) [] init_state)
        (path (new_event (shot (Some light) 0 False))) = None
   \<and> status (loop_body sample_cv (shot (Some light) 0 False)
        (generate_frames sample_cv (Capture True) (Some dark) [] init_state)) = Running
   \<and> motion_events (loop_body sample_cv (shot (Some light) 0 False)
        (generate_frames sample_cv (Capture True) (Some dark) [] init_state))
      = [new_event (shot (Some light) 0 False)]
   \<and> stdout (loop_body sample_cv (shot (Some light) 0 False)
        (generate_frames sample_cv (Capture True) (Some dark) [] init_state)) = []
   \<and> run_thread (init_settings\<lparr>email_enabled := True\<rparr>)
        (files (loop_body sample_cv (shot (Some light) 0 False)
           (generate_frames sample_cv (Capture True) (Some dark) [] init_state)))
        calm_env (Email_alert (path (new_event (shot (Some light) 0 False))))
      = (False, [''Email error: '' @ open_error calm_env (path (new_event (shot (Some light) 0 False)))])
   \<and> run_thread init_settings
        (files (loop_body sample_cv (shot (Some light) 0 False)
           (generate_frames sample_cv (Capture True) (Some dark) [] init_state)))
        calm_env (Email_alert (path (new_event (shot (Some light) 0 False))))
      = (False, [])"
proof -
  let ?s = "generate_frames sample_cv (Capture True) (Some dark) [] init_state"
  let ?i = "shot (Some light) 0 False"
  let ?on = "init_settings\<lparr>email_enabled := True\<rparr>"
  have due: "alert_due (last_motion_time ?s) (time_now ?i)"
    and none: "motion_events ?s = []" "stdout ?s = []"
    and nofile: "files ?s (path (new_event ?i)) = None"
    unfolding sample_start by (simp_all add: init_state_def alert_due_def)
  have wr: "\<not> imwrite_ok ?i"
    by (simp add: shot_def)
  note inst = snapshot_failure_ignored [OF refl sample_positive due wr]
  have c1: "status (loop_body sample_cv ?i ?s) = Running"
    using inst by blast
  have "motion_events (loop_body sample_cv ?i ?s) = take 20 (new_event ?i # motion_events ?s)"
    using inst by blast
  then have c2: "motion_events (loop_body sample_cv ?i ?s) = [new_event ?i]"
    by (simp add: none)
  have "stdout (loop_body sample_cv ?i ?s) = stdout ?s"
    using inst by blast
  then have c3: "stdout (loop_body sample_cv ?i ?s) = []"
    by (simp add: none)
  have "run_thread ?on (files (loop_body sample_cv ?i ?s)) calm_env (Email_alert (path (new_event ?i)))
      = (False, if email_enabled ?on
                then [''Email error: '' @ open_error calm_env (path (new_event ?i))] else [])"
    using inst [of ?on calm_env] nofile by blast
  then have c4: "run_thread ?on (files (loop_body sample_cv ?i ?s)) calm_env (Email_alert (path (new_event ?i)))
      = (False, [''Email error: '' @ open_error calm_env (path (new_event ?i))])"
    by simp
  have "run_thread init_settings (files (loop_body sample_cv ?i ?s)) calm_env (Email_alert (path (new_event ?i)))
      = (False, if email_enabled init_settings
                then [''Email error: '' @ open_error calm_env (path (new_event ?i))] else [])"
    using inst [of init_settings calm_env] nofile by blast
  then have c5: "run_thread init_settings (files (loop_body sample_cv ?i ?s)) calm_env (Email_alert (path (new_event ?i)))
      = (False, [])"
    by (simp add: init_settings_def)
  from sample_positive [of 0 False] due wr nofile c1 c2 c3 c4 c5 show ?thesis by blast
qed

section \<open>The loop's end and the placeholder: the claims\<close>

text \<open>
  C7, as stated, fails: one failed read ends the loop. After a failed read the frame that
  the camera delivers next is never looked at: the run is the run that stops at the
  failure, \<open>generate_frames\<close> has returned, and no frame was counted or published.
\<close>

theorem read_failure_counterexample:
  "generate_frames sample_cv (Capture True) (Some dark)
     [shot None 0 True, shot (Some light) 1 True] init_state
     = generate_frames sample_cv (Capture True) (Some dark) [shot None 0 True] init_state
   \<and> status (generate_frames sample_cv (Capture True) (Some dark)
        [shot None 0 True, shot (Some light) 1 True] init_state) = Returned
   \<and> frame_count (generate_frames sample_cv (Capture True) (Some dark)
        [shot None 0 True, shot (Some light) 1 True] init_state) = 0
   \<and> latest (generate_frames sample_cv (Capture True) (Some dark)
        [shot None 0 True, shot (Some light) 1 True] init_state) = None"
proof -
  let ?s = "generate_frames sample_cv (Capture True) (Some dark) [] init_state"
  have run: "status ?s = Running" and cnt: "frame_count ?s = 0" and out: "latest ?s = None"
    unfolding sample_start by (simp_all add: init_state_def latest_def)
  have rd: "read_result (shot None 0 True) = None"
    by (simp add: shot_def)
  have one: "generate_frames sample_cv (Capture True) (Some dark) [shot None 0 True] init_state
        = ?s\<lparr>status := Returned\<rparr>"
    using generate_frames_snoc [of sample_cv "Capture True" "Some dark" "[]" "shot None 0 True" init_state]
      loop_body_break [OF run rd, of sample_cv]
    by simp
  have two: "generate_frames sample_cv (Capture True) (Some dark)
        [shot None 0 True, shot (Some light) 1 True] init_state = ?s\<lparr>status := Returned\<rparr>"
    using generate_frames_snoc [of sample_cv "Capture True" "Some dark" "[shot None 0 True]"
        "shot (Some light) 1 True" init_state]
    by (simp add: one loop_body_idle)
  show ?thesis
    unfolding one two using cnt out by (simp add: latest_def)
qed

text \<open>
  C7, amended. The loop ends at the first failed read: while it runs, a failed
  \<open>camera.read()\<close> makes \<open>generate_frames\<close> leave the loop and return, with no other
  change of state, and whatever the camera would deliver afterwards is not read.
\<close>

theorem read_failure_ends_loop:
  assumes "s = generate_frames cv opn rd ins init_state"
    and "status s = Running" and "read_result i = None"
  shows "loop_body cv i s = s\<lparr>status := Returned\<rparr>
       \<and> fold (loop_body cv) (i # js) s = s\<lparr>status := Returned\<rparr>"
  using assms(2,3) by (simp add: loop_body_break fold_loop_body_idle)

theorem read_failure_ends_loop_witness:
  "status (generate_frames sample_cv (Capture True) (Some dark) [] init_state) = Running
   \<and> read_result (shot None 0 True) = None
   \<and> status (fold (loop_body sample_cv) [shot None 0 True, shot (Some light) 1 True]
        (generate_frames sample_cv (Capture True) (Some dark) [] init_state)) = Returned"
proof -
  let ?s = "generate_frames sample_cv (Capture True) (Some dark) [] init_state"
  have run: "status ?s = Running"
    unfolding sample_start by (simp add: init_state_def)
  have rd: "read_result (shot None 0 True) = None"
    by (simp add: shot_def)
  have "fold (loop_body sample_cv) [shot None 0 True, shot (Some light) 1 True] ?s
          = ?s\<lparr>status := Returned\<rparr>"
    using read_failure_ends_loop [OF refl run rd, of "[shot (Some light) 1 True]"] by blast
  then have "status (fold (loop_body sample_cv) [shot None 0 True, shot (Some light) 1 True] ?s) = Returned"
    by simp
  with run rd show ?thesis by blast
qed

text \<open>
  C9. When the camera cannot be opened (\<open>isOpened()\<close> is false, or opening raises),
  \<open>generate_frames\<close> prints the error and publishes a placeholder, the black 480 by 640
  frame with the text "Camera not available", before it returns. Whatever follows, a
  reader sees that frame, and a pass of \<open>generate_video_feed\<close> yields its encoding.
\<close>

theorem camera_unavailable_placeholder:
  "latest (generate_frames cv (Capture False) rd ins init_state)
     = Some (putText cv (replicate 480 (replicate 640 (0, 0, 0))) ''Camera not available''
              (100, 240) FONT_HERSHEY_SIMPLEX 1 (0, 0, 255) 2)
   \<and> stdout (generate_frames cv (Capture False) rd ins init_state) = [''Error: Could not open camera.'']
   \<and> status (generate_frames cv (Capture False) rd ins init_state) = Returned
   \<and> video_feed_pass cv (generate_frames cv (Capture False) rd ins init_state)
       = chunk_of cv (putText cv (replicate 480 (replicate 640 (0, 0, 0))) ''Camera not available''
              (100, 240) FONT_HERSHEY_SIMPLEX 1 (0, 0, 255) 2)
   \<and> latest (generate_frames cv (Capture_raised e) rd ins init_state)
     = Some (putText cv (replicate 480 (replicate 640 (0, 0, 0))) ''Camera not available''
              (100, 240) FONT_HERSHEY_SIMPLEX 1 (0, 0, 255) 2)
   \<and> stdout (generate_frames cv (Capture_raised e) rd ins init_state) = [''Camera error: '' @ e]
   \<and> status (generate_frames cv (Capture_raised e) rd ins init_state) = Returned
   \<and> video_feed_pass cv (generate_frames cv (Capture_raised e) rd ins init_state)
       = chunk_of cv (putText cv (replicate 480 (replicate 640 (0, 0, 0))) ''Camera not available''
              (100, 240) FONT_HERSHEY_SIMPLEX 1 (0, 0, 255) 2)"
proof -
  let ?p = "putText cv (replicate 480 (replicate 640 (0, 0, 0))) ''Camera not available''
              (100, 240) FONT_HERSHEY_SIMPLEX 1 (0, 0, 255) 2"
  have frame: "placeholder_frame cv = ?p"
    by (simp add: placeholder_frame_def blank_frame_def)
  have closed: "generate_frames cv (Capture False) rd ins init_state
        = (placeholder cv (print ''Error: Could not open camera.'' (init_state\<lparr>camera := Some False\<rparr>)))
            \<lparr>status := Returned\<rparr>"
    by (simp add: generate_frames_def open_camera_def first_read_def fold_loop_body_idle init_state_def)
  have raised: "generate_frames cv (Capture_raised e) rd ins init_state
        = (placeholder cv (print (''Camera error: '' @ e) init_state))\<lparr>status := Returned\<rparr>"
    by (simp add: generate_frames_def open_camera_def first_read_def fold_loop_body_idle init_state_def)
  have a: "latest (generate_frames cv (Capture False) rd ins init_state) = Some ?p"
    and b: "stdout (generate_frames cv (Capture False) rd ins init_state) = [''Error: Could not open camera.'']"
    and c: "status (generate_frames cv (Capture False) rd ins init_state) = Returned"
    unfolding closed placeholder_eq frame by (simp_all add: latest_def print_def init_state_def)
  have d: "latest (generate_frames cv (Capture_raised e) rd ins init_state) = Some ?p"
    and f: "stdout (generate_frames cv (Capture_raised e) rd ins init_state) = [''Camera error: '' @ e]"
    and g: "status (generate_frames cv (Capture_raised e) rd ins init_state) = Returned"
    unfolding raised placeholder_eq frame by (simp_all add: latest_def print_def init_state_def)
  from a b c d f g show ?thesis
    by (simp add: video_feed_latest)
qed

section \<open>The settings form: the claim\<close>

lemma py_int_empty: "py_int [] = None"
  by (simp add: py_int_def)

lemma py_int_2525: "py_int ''2525'' = Some 2525"
  by (simp add: py_int_def is_space_def unsigned_int_def digit_of_def int_max_str_digits_def)

lemma py_int_separator: "py_int (CHR 0x1C # ''25'') = None"
  by (simp add: py_int_def is_space_def unsigned_int_def digit_of_def int_max_str_digits_def)

lemma py_int_too_long: "py_int (replicate 4301 CHR ''1'') = None"
proof -
  have "\<not> is_space CHR ''1''" and "digit_of CHR ''1'' \<noteq> None"
    by (simp_all add: is_space_def digit_of_def)
  then show ?thesis
    by (simp add: py_int_def int_max_str_digits_def dropWhile_replicate filter_replicate)
qed

text \<open>
  C10, as stated, fails: a request whose port field does not read as an integer (an
  empty port box, here) raises in \<open>int(...)\<close> after the first two assignments, and the
  fields after it keep their old values. The submitted user name is not stored.
\<close>

theorem update_settings_counterexample:
  "[''smtp_port'' \<mapsto> [], ''email_username'' \<mapsto> ''alice''] ''email_password'' = None
   \<and> snd (update_settings [''smtp_port'' \<mapsto> [], ''email_username'' \<mapsto> ''alice''] init_settings)
       = Inl ValueError
   \<and> email_username (fst (update_settings [''smtp_port'' \<mapsto> [], ''email_username'' \<mapsto> ''alice'']
        init_settings)) = []
   \<and> form_get [''smtp_port'' \<mapsto> [], ''email_username'' \<mapsto> ''alice''] ''email_username'' [] = ''alice''"
  by (simp add: update_settings_def py_int_empty form_get_def init_settings_def)

text \<open>
  C10, amended. A settings update never changes the stored email password when the
  password field is absent or empty, nor the Twilio auth token when its field is absent
  or empty. When the port field is absent or reads as an integer, every other email and
  Twilio setting is overwritten with what was submitted: the flags with whether their
  field is present, the texts with the field or the empty text, the port with the
  integer or 587.
\<close>

theorem update_settings_keeps_secrets:
  "((f ''email_password'' = None \<or> f ''email_password'' = Some []) \<longrightarrow>
      email_password (fst (update_settings f st)) = email_password st)
   \<and> ((f ''twilio_auth_token'' = None \<or> f ''twilio_auth_token'' = Some []) \<longrightarrow>
      twilio_auth_token (fst (update_settings f st)) = twilio_auth_token st)
   \<and> ((case f ''smtp_port'' of None \<Rightarrow> Some 587 | Some v \<Rightarrow> py_int v) = Some port \<longrightarrow>
      update_settings f st =
        (\<lparr>email_enabled = (f ''email_enabled'' \<noteq> None),
          email_smtp_server = form_get f ''smtp_server'' [],
          email_smtp_port = port,
          email_username = form_get f ''email_username'' [],
          email_password = (case f ''email_password'' of None \<Rightarrow> email_password st
                            | Some v \<Rightarrow> if v \<noteq> [] then v else email_password st),
          email_recipient = form_get f ''email_recipient'' [],
          twilio_enabled = (f ''twilio_enabled'' \<noteq> None),
          twilio_account_sid = form_get f ''twilio_account_sid'' [],
          twilio_auth_token = (case f ''twilio_auth_token'' of None \<Rightarrow> twilio_auth_token st
                               | Some v \<Rightarrow> if v \<noteq> [] then v else twilio_auth_token st),
          twilio_from_number = form_get f ''twilio_from_number'' [],
          twilio_to_number = form_get f ''twilio_to_number'' []\<rparr>,
         Inr (''Settings updated successfully!'', ''settings_page'')))"
proof (intro conjI impI)
  assume "f ''email_password'' = None \<or> f ''email_password'' = Some []"
  then show "email_password (fst (update_settings f st)) = email_password st"
    by (auto simp: update_settings_def Let_def split: option.splits)
next
  assume "f ''twilio_auth_token'' = None \<or> f ''twilio_auth_token'' = Some []"
  then show "twilio_auth_token (fst (update_settings f st)) = twilio_auth_token st"
    by (auto simp: update_settings_def Let_def split: option.splits)
next
  assume "(case f ''smtp_port'' of None \<Rightarrow> Some 587 | Some v \<Rightarrow> py_int v) = Some port"
  then show "update_settings f st =
        (\<lparr>email_enabled = (f ''email_enabled'' \<noteq> None),
          email_smtp_server = form_get f ''smtp_server'' [],
          email_smtp_port = port,
          email_username = form_get f ''email_username'' [],
          email_password = (case f ''email_password'' of None \<Rightarrow> email_password st
                            | Some v \<Rightarrow> if v \<noteq> [] then v else email_password st),
          email_recipient = form_get f ''email_recipient'' [],
          twilio_enabled = (f ''twilio_enabled'' \<noteq> None),
          twilio_account_sid = form_get f ''twilio_account_sid'' [],
          twilio_auth_token = (case f ''twilio_auth_token'' of None \<Rightarrow> twilio_auth_token st
                               | Some v \<Rightarrow> if v \<noteq> [] then v else twilio_auth_token st),
          twilio_from_number = form_get f ''twilio_from_number'' [],
          twilio_to_number = form_get f ''twilio_to_number'' []\<rparr>,
         Inr (''Settings updated successfully!'', ''settings_page''))"
    by (cases "f ''email_password''"; cases "f ''twilio_auth_token''")
       (simp_all add: update_settings_def Let_def)
qed

theorem update_settings_keeps_secrets_witness:
  "[''smtp_port'' \<mapsto> ''2525'', ''email_username'' \<mapsto> ''alice'', ''email_password'' \<mapsto> []]
      ''email_password'' = Some []
   \<and> [''smtp_port'' \<mapsto> ''2525'', ''email_username'' \<mapsto> ''alice'', ''email_password'' \<mapsto> []]
      ''twilio_auth_token'' = None
   \<and> py_int ''2525'' = Some 2525
   \<and> email_password (fst (update_settings
        [''smtp_port'' \<mapsto> ''2525'', ''email_username'' \<mapsto> ''alice'', ''email_password'' \<mapsto> []]
        (init_settings\<lparr>email_password := ''secret''\<rparr>))) = ''secret''
   \<and> email_username (fst (update_settings
        [''smtp_port'' \<mapsto> ''2525'', ''email_username'' \<mapsto> ''alice'', ''email_password'' \<mapsto> []]
        (init_settings\<lparr>email_password := ''secret''\<rparr>))) = ''alice''
   \<and> email_smtp_port (fst (update_settings
        [''smtp_port'' \<mapsto> ''2525'', ''email_username'' \<mapsto> ''alice'', ''email_password'' \<mapsto> []]
        (init_settings\<lparr>email_password := ''secret''\<rparr>))) = 2525"
proof -
  let ?f = "[''smtp_port'' \<mapsto> ''2525'', ''email_username'' \<mapsto> ''alice'', ''email_password'' \<mapsto> []]"
  let ?st = "init_settings\<lparr>email_password := ''secret''\<rparr>"
  note inst = update_settings_keeps_secrets [of ?f ?st 2525]
  have h1: "?f ''email_password'' = Some []" and h2: "?f ''twilio_auth_token'' = None"
    by simp_all
  have h3: "(case ?f ''smtp_port'' of None \<Rightarrow> Some 587 | Some v \<Rightarrow> py_int v) = Some 2525"
    by (simp add: py_int_2525)
  have c1: "email_password (fst (update_settings ?f ?st)) = email_password ?st"
    using inst h1 by blast
  have c2: "email_username (fst (update_settings ?f ?st)) = form_get ?f ''email_username'' []"
    and c3: "email_smtp_port (fst (update_settings ?f ?st)) = 2525"
    using inst h3 by simp_all
  from h1 h2 c1 c2 c3 show ?thesis
    by (simp add: py_int_2525 form_get_def)
qed

end
